theory Spec2Isabelle
  imports Complex_Main "HOL-Library.AList" "HOL-Library.Multiset" "HOL-Library.Log_Nat"
    "HOL-Library.Sublist"
begin

section \<open>JavaScript strings\<close>

text \<open>
  A JavaScript string is a sequence of UTF-16 code units. The model uses \<open>string\<close>
  (a list of 8-bit characters), read as the code units below 256 (Latin-1); the only
  non-ASCII code unit the program names is the o-acute of the Spanish date header,
  \<open>CHR 0xF3\<close>. Code units from 256 on are outside the model.
\<close>

definition isWhiteSpace :: "char \<Rightarrow> bool" where
  \<comment> \<open>WhiteSpace and LineTerminator code units below 256: TAB, LF, VT, FF, CR, SP, NBSP\<close>
  "isWhiteSpace c \<longleftrightarrow> (of_char c :: nat) \<in> {9, 10, 11, 12, 13, 32, 160}"

definition trimStart :: "string \<Rightarrow> string" where
  "trimStart s = dropWhile isWhiteSpace s"

definition trim :: "string \<Rightarrow> string" where
  \<comment> \<open>\<open>String.prototype.trim\<close>\<close>
  "trim s = rev (trimStart (rev (trimStart s)))"

definition toLowerChar :: "char \<Rightarrow> char" where
  \<comment> \<open>the Latin-1 letters with a lower-case partner: A-Z, and U+00C0-U+00DE except U+00D7\<close>
  "toLowerChar c =
     (let n = (of_char c :: nat)
      in if (65 \<le> n \<and> n \<le> 90) \<or> (192 \<le> n \<and> n \<le> 222 \<and> n \<noteq> 215)
         then char_of (n + 32) else c)"

definition toLowerCase :: "string \<Rightarrow> string" where
  "toLowerCase s = map toLowerChar s"

fun replace :: "char \<Rightarrow> string \<Rightarrow> string \<Rightarrow> string" where
  \<comment> \<open>\<open>s.replace(p, r)\<close> with a one-character string pattern: only the first
      occurrence is replaced\<close>
  "replace p r [] = []"
| "replace p r (c # s) = (if c = p then r @ s else c # replace p r s)"

fun split :: "char \<Rightarrow> string \<Rightarrow> string list" where
  \<comment> \<open>\<open>s.split(sep)\<close> with a one-character separator; the empty string gives one empty part\<close>
  "split sep [] = [[]]"
| "split sep (c # s) =
     (if c = sep then [] # split sep s
      else (case split sep s of [] \<Rightarrow> [[c]] | p # ps \<Rightarrow> (c # p) # ps))"

definition isDigit :: "char \<Rightarrow> bool" where
  "isDigit c \<longleftrightarrow> 48 \<le> (of_char c :: nat) \<and> (of_char c :: nat) \<le> 57"

definition digitsValue :: "string \<Rightarrow> int" where
  \<comment> \<open>the value of a string of decimal digits\<close>
  "digitsValue ds = foldl (\<lambda>n c. 10 * n + ((of_char c :: int) - 48)) 0 ds"

definition takeSign :: "string \<Rightarrow> bool \<times> string" where
  \<comment> \<open>an optional leading sign: (is negative, rest)\<close>
  "takeSign s =
     (case s of
        [] \<Rightarrow> (False, [])
      | c # r \<Rightarrow> if c = CHR ''-'' then (True, r) else if c = CHR ''+'' then (False, r)
                 else (False, s))"

definition parseInt :: "string \<Rightarrow> int option" where
  \<comment> \<open>\<open>parseInt(s, 10)\<close>: leading white space, an optional sign, the longest prefix of
      decimal digits; \<open>None\<close> is NaN. (\<open>-0\<close> is read as 0.)\<close>
  "parseInt s =
     (let (neg, r) = takeSign (trimStart s); ds = takeWhile isDigit r
      in if ds = [] then None
         else Some (if neg then - digitsValue ds else digitsValue ds))"

section \<open>The numeric literal read by \<open>parseFloat\<close>\<close>

datatype strnum = StrNaN | StrInfinity bool | StrDecimal rat

definition exponentPart :: "string \<Rightarrow> int" where
  \<comment> \<open>an \<open>e\<close> or \<open>E\<close>, an optional sign and at least one digit; anything else is no exponent\<close>
  "exponentPart s =
     (case s of
        [] \<Rightarrow> 0
      | c # r \<Rightarrow>
          if c = CHR ''e'' \<or> c = CHR ''E'' then
            (let (neg, r') = takeSign r; ds = takeWhile isDigit r'
             in if ds = [] then 0
                else if neg then - digitsValue ds else digitsValue ds)
          else 0)"

definition pow10 :: "int \<Rightarrow> rat" where
  "pow10 k = (if 0 \<le> k then 10 ^ nat k else 1 / 10 ^ nat (- k))"

definition strDecimalLiteral :: "string \<Rightarrow> strnum" where
  \<comment> \<open>the longest prefix of the trimmed string that is a StrDecimalLiteral, with its
      exact value; \<open>StrNaN\<close> when there is none\<close>
  "strDecimalLiteral s =
     (let (neg, r) = takeSign (trimStart s)
      in if take 8 r = ''Infinity'' then StrInfinity neg
         else
           (let ip = takeWhile isDigit r;
                r1 = dropWhile isDigit r;
                (fp, r2) = (case r1 of
                              [] \<Rightarrow> ([], [])
                            | c # r' \<Rightarrow> if c = CHR ''.''
                                        then (takeWhile isDigit r', dropWhile isDigit r')
                                        else ([], r1))
            in if ip = [] \<and> fp = [] then StrNaN
               else
                 (let v = rat_of_int (digitsValue (ip @ fp))
                            * pow10 (exponentPart r2 - int (length fp))
                  in StrDecimal (if neg then - v else v))))"

section \<open>The host environment\<close>

text \<open>
  What the program takes from the JavaScript engine: the number type \<open>'n\<close> with its
  \<open>+\<close> and \<open>0\<close>, \<open>parseFloat\<close>, \<open>isNaN\<close>, and the \<open>Date\<close> constructor, whose reading
  of a string that is not in the ISO format is left to the engine by the language
  standard. \<open>Date h s = None\<close> is an Invalid Date (its \<open>getTime()\<close> is NaN).
\<close>

record JSDate =
  getTime :: int
  getMonth :: nat

record 'n host =
  parseFloat :: "string \<Rightarrow> 'n"
  isNaN :: "'n \<Rightarrow> bool"
  Date :: "string \<Rightarrow> JSDate option"

section \<open>The data model of the program\<close>

datatype Language = En | Es

datatype error = TypeError

type_synonym row = "string \<rightharpoonup> string"

text \<open>
  The field \<open>total\<close> of \<open>DailyProfit\<close> is \<open>total'\<close> here: \<open>total\<close> is a constant of
  HOL.
\<close>

record 'n DailyProfit =
  date :: string
  retail :: 'n
  club :: 'n
  total' :: 'n

section \<open>Sorting with a comparator\<close>

text \<open>
  \<open>Array.prototype.sort\<close> is stable, and a comparator result of NaN (\<open>None\<close>) counts
  as \<open>+0\<close>. The model is the stable insertion sort; for a consistent comparator every
  stable sort gives this result. For a comparator that is not consistent (one that
  returns NaN for some pairs only) the language leaves the order to the engine, and
  the order of the model need not be the engine's.
\<close>

definition minus_time :: "int option \<Rightarrow> int option \<Rightarrow> int option" where
  \<comment> \<open>\<open>a - b\<close> on times, NaN when either is NaN\<close>
  "minus_time a b = (case a of None \<Rightarrow> None | Some x \<Rightarrow> map_option (\<lambda>y. x - y) b)"

definition comparatorValue :: "int option \<Rightarrow> int" where
  "comparatorValue v = (case v of None \<Rightarrow> 0 | Some d \<Rightarrow> d)"

fun insert_sorted :: "('a \<Rightarrow> 'a \<Rightarrow> int option) \<Rightarrow> 'a \<Rightarrow> 'a list \<Rightarrow> 'a list" where
  "insert_sorted cmp x [] = [x]"
| "insert_sorted cmp x (y # ys) =
     (if comparatorValue (cmp x y) \<le> 0 then x # y # ys else y # insert_sorted cmp x ys)"

definition sort_with :: "('a \<Rightarrow> 'a \<Rightarrow> int option) \<Rightarrow> 'a list \<Rightarrow> 'a list" where
  "sort_with cmp xs = foldr (insert_sorted cmp) xs []"

section \<open>Months\<close>

definition monthNames :: "Language \<Rightarrow> string list" where
  "monthNames language =
     (case language of
        Es \<Rightarrow> [''Enero'', ''Febrero'', ''Marzo'', ''Abril'', ''Mayo'', ''Junio'', ''Julio'',
               ''Agosto'', ''Septiembre'', ''Octubre'', ''Noviembre'', ''Diciembre'']
      | En \<Rightarrow> [''January'', ''February'', ''March'', ''April'', ''May'', ''June'', ''July'',
               ''August'', ''September'', ''October'', ''November'', ''December''])"

definition monthNameAt :: "Language \<Rightarrow> nat \<Rightarrow> string" where
  \<comment> \<open>\<open>monthNames[i]\<close>; the index is in range at both uses in the program (an engine's
      \<open>getMonth()\<close> is between 0 and 11), a host value out of range reads as no label\<close>
  "monthNameAt language i = (if i < 12 then monthNames language ! i else [])"

definition getMonthFromDate :: "'n host \<Rightarrow> Language \<Rightarrow> string \<Rightarrow> string" where
  "getMonthFromDate h language dateString =
     (if dateString = [] then []
      else
        (let dateParts = split CHR ''/'' dateString
         in if length dateParts < 3 then
              (case Date h dateString of
                 None \<Rightarrow> []
               | Some d \<Rightarrow> monthNameAt language (getMonth d))
            else
              (case parseInt (dateParts ! 0) of
                 None \<Rightarrow> []
               | Some n \<Rightarrow>
                   (let monthIndex = n - 1
                    in if monthIndex < 0 \<or> monthIndex > 11 then []
                       else monthNameAt language (nat monthIndex)))))"

definition dateTime :: "'n host \<Rightarrow> string \<Rightarrow> int option" where
  \<comment> \<open>\<open>new Date(s).getTime()\<close>\<close>
  "dateTime h s = map_option getTime (Date h s)"

definition Set_add :: "'a list \<Rightarrow> 'a \<Rightarrow> 'a list" where
  \<comment> \<open>a \<open>Set\<close> in insertion order\<close>
  "Set_add s x = (if x \<in> set s then s else s @ [x])"

definition max_time :: "int option \<Rightarrow> int option \<Rightarrow> int option" where
  \<comment> \<open>\<open>Math.max\<close> of two times, NaN when either is NaN\<close>
  "max_time a b = (case a of None \<Rightarrow> None | Some x \<Rightarrow> map_option (max x) b)"

definition latest :: "'n host \<Rightarrow> Language \<Rightarrow> 'n DailyProfit list \<Rightarrow> string \<Rightarrow> int option" where
  \<comment> \<open>\<open>dates.length > 0 ? Math.max(...dates.map(d => d.getTime())) : 0\<close> over the days
      of month \<open>a\<close>; \<open>Math.max\<close> is NaN as soon as one argument is\<close>
  "latest h language dailyData a =
     (case map (\<lambda>d. dateTime h (date d))
             (filter (\<lambda>d. getMonthFromDate h language (date d) = a) dailyData) of
        [] \<Rightarrow> Some 0
      | t # ts \<Rightarrow> foldl max_time t ts)"

definition getAllUniqueMonths :: "'n host \<Rightarrow> Language \<Rightarrow> 'n DailyProfit list \<Rightarrow> string list" where
  "getAllUniqueMonths h language dailyData =
     (if dailyData = [] then []
      else
        (let monthSet =
               foldl (\<lambda>s day.
                        (let month = getMonthFromDate h language (date day)
                         in if month \<noteq> [] then Set_add s month else s))
                     [] dailyData
         in sort_with (\<lambda>a b. minus_time (latest h language dailyData b)
                                         (latest h language dailyData a))
                      monthSet))"

definition getFilteredDailyData ::
  "'n host \<Rightarrow> Language \<Rightarrow> 'n DailyProfit list \<Rightarrow> string \<Rightarrow> 'n DailyProfit list" where
  "getFilteredDailyData h language dailyData month =
     (if month = ''ALL'' then dailyData
      else filter (\<lambda>day. getMonthFromDate h language (date day) = month) dailyData)"

definition getFilteredTotals ::
  "'n::{plus,zero} host \<Rightarrow> Language \<Rightarrow> 'n DailyProfit list \<Rightarrow> string \<Rightarrow> 'n \<times> 'n" where
  \<comment> \<open>the pair is (retailTotal, clubTotal)\<close>
  "getFilteredTotals h language dailyData month =
     (let filtered = getFilteredDailyData h language dailyData month
      in (foldl (\<lambda>sum day. sum + retail day) 0 filtered,
          foldl (\<lambda>sum day. sum + club day) 0 filtered))"

section \<open>The filters on arrays by reference\<close>

text \<open>
  An array of the program is an object: \<open>dailyData\<close> is a reference into a heap of
  arrays, \<open>filter\<close> allocates a new array, the branch for \<open>ALL\<close> returns the reference
  it was given, and \<open>reduce\<close> reads the array it is called on. The two functions below
  are the two filter functions again, with the heap passed through; reading an array
  that is not there is the TypeError.
\<close>

record 'n heap =
  arrays :: "nat \<rightharpoonup> 'n DailyProfit list"
  nextRef :: nat

definition newArray :: "'n heap \<Rightarrow> 'n DailyProfit list \<Rightarrow> nat \<times> 'n heap" where
  "newArray hp xs =
     (nextRef hp, hp\<lparr>arrays := (arrays hp)(nextRef hp \<mapsto> xs), nextRef := Suc (nextRef hp)\<rparr>)"

definition getFilteredDailyData_ref ::
  "'n host \<Rightarrow> Language \<Rightarrow> 'n heap \<Rightarrow> nat \<Rightarrow> string \<Rightarrow> error + nat \<times> 'n heap" where
  "getFilteredDailyData_ref h language hp dailyData month =
     (if month = ''ALL'' then Inr (dailyData, hp)
      else
        (case arrays hp dailyData of
           None \<Rightarrow> Inl TypeError
         | Some days \<Rightarrow>
             Inr (newArray hp
                    (filter (\<lambda>day. getMonthFromDate h language (date day) = month) days))))"

definition getFilteredTotals_ref ::
  "'n::{plus,zero} host \<Rightarrow> Language \<Rightarrow> 'n heap \<Rightarrow> nat \<Rightarrow> string
     \<Rightarrow> error + ('n \<times> 'n) \<times> 'n heap" where
  \<comment> \<open>the pair is (retailTotal, clubTotal)\<close>
  "getFilteredTotals_ref h language hp dailyData month =
     (case getFilteredDailyData_ref h language hp dailyData month of
        Inl e \<Rightarrow> Inl e
      | Inr (filtered, hp1) \<Rightarrow>
          (case arrays hp1 filtered of
             None \<Rightarrow> Inl TypeError
           | Some days \<Rightarrow>
               Inr ((foldl (\<lambda>sum day. sum + retail day) 0 days,
                     foldl (\<lambda>sum day. sum + club day) 0 days), hp1)))"

section \<open>Aggregation\<close>

definition or_else :: "string option \<Rightarrow> string option \<Rightarrow> string option" where
  \<comment> \<open>\<open>a || b\<close> on values that are a string or undefined: the empty string is falsy\<close>
  "or_else a b = (case a of None \<Rightarrow> b | Some v \<Rightarrow> if v \<noteq> [] then a else b)"

definition Fecha_de_creacion :: string where
  "Fecha_de_creacion = ''Fecha de creaci'' @ [CHR 0xF3] @ ''n''"

definition receiptType :: "row \<Rightarrow> string option" where
  "receiptType row = or_else (row ''Receipt Type'') (row ''Tipo de Recibo'')"

definition profitString :: "row \<Rightarrow> string option" where
  "profitString row = or_else (row ''Profit'') (row ''Ganancia'')"

definition dateCreated :: "row \<Rightarrow> string option" where
  "dateCreated row = or_else (row ''Date Created'') (row Fecha_de_creacion)"

definition customerName :: "row \<Rightarrow> string option" where
  "customerName row = or_else (row ''Customer Name'') (row ''Nombre del Cliente'')"

definition isExcluded :: "string option \<Rightarrow> bool" where
  \<comment> \<open>\<open>customerName && customerName.toString().trim().toLowerCase() === 'ashley regis'\<close>\<close>
  "isExcluded name =
     (case name of
        None \<Rightarrow> False
      | Some c \<Rightarrow> c \<noteq> [] \<and> toLowerCase (trim c) = ''ashley regis'')"

definition profit :: "'n host \<Rightarrow> string \<Rightarrow> 'n" where
  \<comment> \<open>\<open>parseFloat(profitString.toString().replace('$', '').replace(',', ''))\<close>\<close>
  "profit h ps = parseFloat h (replace CHR '','' [] (replace CHR ''$'' [] ps))"

definition isRetail :: "string \<Rightarrow> bool" where
  "isRetail typeString \<longleftrightarrow> typeString = ''Retail Sale'' \<or> typeString = ''Venta al menudeo''"

definition isClub :: "string \<Rightarrow> bool" where
  "isClub typeString \<longleftrightarrow>
     typeString = ''Club Visit/Sale'' \<or> typeString = ''Visita al Club / Venta''"

type_synonym 'n dailyMap = "(string \<times> ('n \<times> 'n)) list"
  \<comment> \<open>\<open>Map<string, {retail, club}>\<close>, in insertion order\<close>

definition addToDay :: "'n::plus \<Rightarrow> string \<Rightarrow> 'n \<times> 'n \<Rightarrow> 'n \<times> 'n" where
  \<comment> \<open>the update of \<open>dayData\<close>, a pair (retail, club)\<close>
  "addToDay p typeString dayData =
     (case dayData of (r, c) \<Rightarrow>
        if isRetail typeString then (r + p, c)
        else if isClub typeString then (r, c + p)
        else (r, c))"

definition processRow ::
  "'n::{plus,zero} host \<Rightarrow> 'n \<times> 'n \<times> 'n dailyMap \<Rightarrow> row \<Rightarrow> error + 'n \<times> 'n \<times> 'n dailyMap" where
  \<comment> \<open>the body of \<open>data.forEach\<close> in \<open>calculateTotals\<close>, on the locals
      (retailTotal, clubTotal, dailyMap); \<open>dailyMap.get(dateKey)\<close> is an option, and
      reading a field of undefined is the TypeError\<close>
  "processRow h locals row =
     (case locals of (retailTotal0, clubTotal0, dailyMap0) \<Rightarrow>
        if isExcluded (customerName row) then Inr locals
        else
          (case (receiptType row, profitString row) of
             (Some typeString, Some ps) \<Rightarrow>
               if typeString \<noteq> [] \<and> ps \<noteq> [] then
                 (let p = profit h ps
                  in if \<not> isNaN h p then
                       (let retailTotal1 = (if isRetail typeString then retailTotal0 + p
                                            else retailTotal0);
                            clubTotal1 = (if isRetail typeString then clubTotal0
                                          else if isClub typeString then clubTotal0 + p
                                          else clubTotal0)
                        in case dateCreated row of
                             Some dateKey \<Rightarrow>
                               if dateKey \<noteq> [] then
                                 (let dailyMap1 =
                                        (if map_of dailyMap0 dateKey = None
                                         then dailyMap0 @ [(dateKey, (0, 0))] else dailyMap0)
                                  in case map_of dailyMap1 dateKey of
                                       None \<Rightarrow> Inl TypeError
                                     | Some dayData \<Rightarrow>
                                         Inr (retailTotal1, clubTotal1,
                                              AList.update dateKey (addToDay p typeString dayData)
                                                dailyMap1))
                               else Inr (retailTotal1, clubTotal1, dailyMap0)
                           | None \<Rightarrow> Inr (retailTotal1, clubTotal1, dailyMap0))
                     else Inr locals)
               else Inr locals
           | _ \<Rightarrow> Inr locals))"

fun forEach :: "('s \<Rightarrow> 'a \<Rightarrow> error + 's) \<Rightarrow> 's \<Rightarrow> 'a list \<Rightarrow> error + 's" where
  "forEach f s [] = Inr s"
| "forEach f s (x # xs) = (case f s x of Inl e \<Rightarrow> Inl e | Inr s' \<Rightarrow> forEach f s' xs)"

record 'n SalesData =
  retailTotal :: 'n
  clubTotal :: 'n
  fileName :: string
  dailyData :: "'n DailyProfit list"

record 'n AppState =
  salesData :: "'n SalesData"
  availableMonths :: "string list"
  selectedMonth :: string

definition toDailyProfit :: "string \<times> ('n::plus \<times> 'n) \<Rightarrow> 'n DailyProfit" where
  "toDailyProfit entry =
     (case entry of (d, (r, c)) \<Rightarrow> \<lparr>date = d, retail = r, club = c, total' = r + c\<rparr>)"

definition calculateTotals ::
  "'n::{plus,zero} host \<Rightarrow> Language \<Rightarrow> row list \<Rightarrow> string \<Rightarrow> error + 'n AppState" where
  "calculateTotals h language data name =
     (case forEach (processRow h) (0, 0, []) data of
        Inl e \<Rightarrow> Inl e
      | Inr (retailTotal', clubTotal', dailyMap) \<Rightarrow>
          (let dailyData' =
                 sort_with (\<lambda>a b. minus_time (dateTime h (date a)) (dateTime h (date b)))
                           (map toDailyProfit dailyMap);
               months = getAllUniqueMonths h language dailyData'
           in Inr \<lparr>salesData = \<lparr>retailTotal = retailTotal', clubTotal = clubTotal',
                                fileName = name, dailyData = dailyData'\<rparr>,
                   availableMonths = months,
                   selectedMonth = (if length months > 1 then months ! 0
                                    else if length months = 1 then months ! 0
                                    else ''ALL'')\<rparr>))"

section \<open>Two engines\<close>

subsection \<open>Numbers as IEEE 754 doubles\<close>

text \<open>
  A finite double is the rational it stands for. \<open>toDouble\<close> rounds a rational to the
  nearest double, ties to even, with the subnormal range and the overflow to infinity
  (a result of \<open>2 ^ 1024\<close> or more: the exponent is above 1023 after rounding).
  The sign of zero is not kept.
\<close>

datatype jsnum = Num rat | PosInf | NegInf | NaN

definition pow2 :: "int \<Rightarrow> rat" where
  "pow2 k = (if 0 \<le> k then 2 ^ nat k else 1 / 2 ^ nat (- k))"

definition floorLog2 :: "rat \<Rightarrow> int" where
  \<comment> \<open>for a positive rational\<close>
  "floorLog2 a =
     (let (p, d) = quotient_of a;
          k = bitlen p - bitlen d
      in if pow2 k \<le> a then k else k - 1)"

definition roundTiesToEven :: "rat \<Rightarrow> int" where
  "roundTiesToEven t =
     (let f = \<lfloor>t\<rfloor>; r = t - of_int f
      in if r < 1 / 2 then f else if 1 / 2 < r then f + 1 else if even f then f else f + 1)"

definition toDouble :: "rat \<Rightarrow> jsnum" where
  "toDouble q =
     (if q = 0 then Num 0
      else
        (let a = \<bar>q\<bar>;
             e = max (floorLog2 a) (- 1022);
             ulp = pow2 (e - 52);
             m = roundTiesToEven (a / ulp);
             r = of_int m * ulp
         in if 1023 < (if m = 2 ^ 53 then e + 1 else e)
            then (if 0 < q then PosInf else NegInf)
            else Num (if 0 < q then r else - r)))"

instantiation jsnum :: "{plus,zero}"
begin

definition zero_jsnum :: jsnum where
  "zero_jsnum = Num 0"

fun plus_jsnum :: "jsnum \<Rightarrow> jsnum \<Rightarrow> jsnum" where
  "plus_jsnum NaN y = NaN"
| "plus_jsnum x NaN = NaN"
| "plus_jsnum PosInf NegInf = NaN"
| "plus_jsnum NegInf PosInf = NaN"
| "plus_jsnum PosInf y = PosInf"
| "plus_jsnum x PosInf = PosInf"
| "plus_jsnum NegInf y = NegInf"
| "plus_jsnum x NegInf = NegInf"
| "plus_jsnum (Num a) (Num b) = toDouble (a + b)"

instance ..

end

definition double_parseFloat :: "string \<Rightarrow> jsnum" where
  "double_parseFloat s =
     (case strDecimalLiteral s of
        StrNaN \<Rightarrow> NaN
      | StrInfinity neg \<Rightarrow> (if neg then NegInf else PosInf)
      | StrDecimal q \<Rightarrow> toDouble q)"

subsection \<open>A Date that reads M/D/YYYY\<close>

definition daysInMonth :: "int \<Rightarrow> int \<Rightarrow> int" where
  "daysInMonth y m =
     (if m = 2 then (if y mod 4 = 0 \<and> (y mod 100 \<noteq> 0 \<or> y mod 400 = 0) then 29 else 28)
      else if m = 4 \<or> m = 6 \<or> m = 9 \<or> m = 11 then 30 else 31)"

definition daysFromCivil :: "int \<Rightarrow> int \<Rightarrow> int \<Rightarrow> int" where
  \<comment> \<open>days from 1970-01-01 to the day d of month m of year y\<close>
  "daysFromCivil y m d =
     (let y1 = (if m \<le> 2 then y - 1 else y);
          era = y1 div 400;
          yoe = y1 - era * 400;
          doy = (153 * ((m + 9) mod 12) + 2) div 5 + d - 1;
          doe = yoe * 365 + yoe div 4 - yoe div 100 + doy
      in era * 146097 + doe - 719468)"

definition usDate :: "string \<Rightarrow> JSDate option" where
  \<comment> \<open>reads one or two digits, a slash, one or two digits, a slash and four digits as
      month, day and year, at midnight with local time UTC; any other string is an
      Invalid Date here. A browser's \<open>Date\<close> reads more strings (ISO dates, a day past
      the end of its month rolled over into the next); the theorems are for every host,
      and this one serves the examples, whose dates it reads as a browser does\<close>
  "usDate s =
     (case split CHR ''/'' s of
        [ms, ds, ys] \<Rightarrow>
          if ms \<noteq> [] \<and> ds \<noteq> [] \<and> length ms \<le> 2 \<and> length ds \<le> 2 \<and> length ys = 4
             \<and> list_all isDigit (ms @ ds @ ys) then
            (let m = digitsValue ms; d = digitsValue ds; y = digitsValue ys
             in if 1 \<le> m \<and> m \<le> 12 \<and> 1 \<le> d \<and> d \<le> daysInMonth y m
                then Some \<lparr>getTime = daysFromCivil y m d * 86400000,
                           getMonth = nat (m - 1)\<rparr>
                else None)
          else None
      | _ \<Rightarrow> None)"

definition engine :: "jsnum host" where
  \<comment> \<open>the engine of the examples: doubles, and the Date above\<close>
  "engine = \<lparr>parseFloat = double_parseFloat, isNaN = (\<lambda>x. x = NaN), Date = usDate\<rparr>"

subsection \<open>Exact decimal numbers\<close>

text \<open>
  The number type of the specification's data model: decimals added exactly. There is
  no infinity; a literal \<open>Infinity\<close> is not a decimal.
\<close>

datatype decimal = Decimal rat | NotDecimal

instantiation decimal :: comm_monoid_add
begin

definition zero_decimal :: decimal where
  "zero_decimal = Decimal 0"

fun plus_decimal :: "decimal \<Rightarrow> decimal \<Rightarrow> decimal" where
  "plus_decimal (Decimal a) (Decimal b) = Decimal (a + b)"
| "plus_decimal x y = NotDecimal"

instance
proof
  fix x y z :: decimal
  show "0 + x = x"
    unfolding zero_decimal_def by (cases x; simp)
  show "x + y = y + x"
    by (cases x; cases y; simp)
  show "x + y + z = x + (y + z)"
    by (cases x; cases y; cases z; simp)
qed

end

definition decimal_parseFloat :: "string \<Rightarrow> decimal" where
  "decimal_parseFloat s =
     (case strDecimalLiteral s of StrDecimal q \<Rightarrow> Decimal q | _ \<Rightarrow> NotDecimal)"

definition decimal_engine :: "decimal host" where
  "decimal_engine =
     \<lparr>parseFloat = decimal_parseFloat, isNaN = (\<lambda>x. x = NotDecimal), Date = usDate\<rparr>"

section \<open>Vocabulary of the statements\<close>

text \<open>
  Predicates and example tables that the statements below are written with. They are
  not part of the program.
\<close>

subsection \<open>Rows\<close>

datatype category = RetailSale | ClubVisit

definition englishValue :: "category \<Rightarrow> string" where
  "englishValue k = (case k of RetailSale \<Rightarrow> ''Retail Sale'' | ClubVisit \<Rightarrow> ''Club Visit/Sale'')"

definition spanishValue :: "category \<Rightarrow> string" where
  "spanishValue k =
     (case k of RetailSale \<Rightarrow> ''Venta al menudeo'' | ClubVisit \<Rightarrow> ''Visita al Club / Venta'')"

definition englishRow :: "category \<Rightarrow> string \<Rightarrow> string \<Rightarrow> string option \<Rightarrow> row" where
  "englishRow k amount d name =
     [''Receipt Type'' \<mapsto> englishValue k, ''Profit'' \<mapsto> amount, ''Date Created'' \<mapsto> d]
       (''Customer Name'' := name)"

definition spanishRow :: "category \<Rightarrow> string \<Rightarrow> string \<Rightarrow> string option \<Rightarrow> row" where
  "spanishRow k amount d name =
     [''Tipo de Recibo'' \<mapsto> spanishValue k, ''Ganancia'' \<mapsto> amount, Fecha_de_creacion \<mapsto> d]
       (''Nombre del Cliente'' := name)"

definition qualifies :: "'n host \<Rightarrow> row \<Rightarrow> bool" where
  "qualifies h row \<longleftrightarrow>
     \<not> isExcluded (customerName row) \<and>
     (case (receiptType row, profitString row) of
        (Some t, Some ps) \<Rightarrow> t \<noteq> [] \<and> ps \<noteq> [] \<and> \<not> isNaN h (profit h ps)
      | _ \<Rightarrow> False)"

definition isRecognized :: "row \<Rightarrow> bool" where
  "isRecognized row \<longleftrightarrow>
     (case receiptType row of Some t \<Rightarrow> isRetail t \<or> isClub t | None \<Rightarrow> False)"

definition hasDate :: "row \<Rightarrow> bool" where
  "hasDate row \<longleftrightarrow> (case dateCreated row of Some d \<Rightarrow> d \<noteq> [] | None \<Rightarrow> False)"

definition datedKeys :: "'n host \<Rightarrow> row list \<Rightarrow> string list" where
  \<comment> \<open>the dates of the qualifying rows that have one, in the order of the table\<close>
  "datedKeys h data =
     List.map_filter (\<lambda>row. if qualifies h row \<and> hasDate row then dateCreated row else None) data"

definition bucketOf :: "'n::zero dailyMap \<Rightarrow> string \<Rightarrow> 'n \<times> 'n" where
  \<comment> \<open>the bucket of a date, (0, 0) when there is none yet\<close>
  "bucketOf dm d = (case map_of dm d of None \<Rightarrow> (0, 0) | Some v \<Rightarrow> v)"

subsection \<open>Days and months\<close>

definition notLater :: "'n host \<Rightarrow> 'n DailyProfit \<Rightarrow> 'n DailyProfit \<Rightarrow> bool" where
  \<comment> \<open>both dates are read by the engine, and the first is not after the second\<close>
  "notLater h a b \<longleftrightarrow>
     (case (dateTime h (date a), dateTime h (date b)) of
        (Some x, Some y) \<Rightarrow> x \<le> y
      | _ \<Rightarrow> False)"

definition mostRecent :: "'n host \<Rightarrow> Language \<Rightarrow> 'n DailyProfit list \<Rightarrow> string \<Rightarrow> int" where
  \<comment> \<open>the latest time among the days of a month label (for readable dates)\<close>
  "mostRecent h language days m =
     Max (set (map (\<lambda>d. the (dateTime h (date d)))
                (filter (\<lambda>d. getMonthFromDate h language (date d) = m) days)))"

definition monthLabels :: "'n host \<Rightarrow> Language \<Rightarrow> 'n DailyProfit list \<Rightarrow> string set" where
  \<comment> \<open>the month labels that occur on the days\<close>
  "monthLabels h language days =
     {m. m \<noteq> [] \<and> (\<exists>d \<in> set days. getMonthFromDate h language (date d) = m)}"

definition slashDateWithoutMonth :: "string \<Rightarrow> bool" where
  \<comment> \<open>at least three parts between slashes, the first of which is not read as an
      integer from 1 to 12\<close>
  "slashDateWithoutMonth s \<longleftrightarrow>
     3 \<le> length (split CHR ''/'' s) \<and>
     (case parseInt (split CHR ''/'' s ! 0) of None \<Rightarrow> True | Some n \<Rightarrow> n < 1 \<or> 12 < n)"

subsection \<open>Single rows\<close>

definition refundRow :: row where
  "refundRow = [''Receipt Type'' \<mapsto> ''Refund'', ''Profit'' \<mapsto> ''$2.00'',
                ''Date Created'' \<mapsto> ''01/06/2024'']"

definition excludedRefundRow :: row where
  "excludedRefundRow = refundRow(''Customer Name'' \<mapsto> ''Ashley Regis'')"

definition noProfitRow :: row where
  "noProfitRow = [''Receipt Type'' \<mapsto> ''Retail Sale'', ''Profit'' \<mapsto> ''N/A'',
                  ''Date Created'' \<mapsto> ''01/05/2024'']"



definition undatedRefundRow :: row where
  "undatedRefundRow = [''Receipt Type'' \<mapsto> ''Refund'', ''Profit'' \<mapsto> ''$2.00'']"

definition undatedRetailRow :: row where
  "undatedRetailRow = [''Receipt Type'' \<mapsto> ''Retail Sale'', ''Profit'' \<mapsto> ''$3.00'']"

subsection \<open>Tables and their results\<close>

definition exampleRows :: "row list" where
  "exampleRows =
     [[''Receipt Type'' \<mapsto> ''Retail Sale'', ''Profit'' \<mapsto> ''$10.00'',
       ''Date Created'' \<mapsto> ''01/05/2024''],
      [''Receipt Type'' \<mapsto> ''Club Visit/Sale'', ''Profit'' \<mapsto> ''$5.50'',
       ''Date Created'' \<mapsto> ''01/05/2024''],
      [''Receipt Type'' \<mapsto> ''Retail Sale'', ''Profit'' \<mapsto> ''$3.00'',
       ''Date Created'' \<mapsto> ''02/01/2024'']]"

definition exampleResult :: "jsnum AppState" where
  "exampleResult =
     \<lparr>salesData =
        \<lparr>retailTotal = Num 13, clubTotal = Num (11 / 2), fileName = ''sales.csv'',
         dailyData =
           [\<lparr>date = ''01/05/2024'', retail = Num 10, club = Num (11 / 2), total' = Num (31 / 2)\<rparr>,
            \<lparr>date = ''02/01/2024'', retail = Num 3, club = 0, total' = Num 3\<rparr>]\<rparr>,
      availableMonths = [''February'', ''January''],
      selectedMonth = ''February''\<rparr>"

definition decimalResult :: "decimal AppState" where
  "decimalResult =
     \<lparr>salesData =
        \<lparr>retailTotal = Decimal 13, clubTotal = Decimal (11 / 2), fileName = ''sales.csv'',
         dailyData =
           [\<lparr>date = ''01/05/2024'', retail = Decimal 10, club = Decimal (11 / 2),
             total' = Decimal (31 / 2)\<rparr>,
            \<lparr>date = ''02/01/2024'', retail = Decimal 3, club = Decimal 0, total' = Decimal 3\<rparr>]\<rparr>,
      availableMonths = [''February'', ''January''],
      selectedMonth = ''February''\<rparr>"

definition unsortedRows :: "row list" where
  "unsortedRows =
     [[''Receipt Type'' \<mapsto> ''Retail Sale'', ''Profit'' \<mapsto> ''$3.00'',
       ''Date Created'' \<mapsto> ''02/01/2024''],
      [''Receipt Type'' \<mapsto> ''Retail Sale'', ''Profit'' \<mapsto> ''$3.00'',
       ''Date Created'' \<mapsto> ''garbage''],
      [''Receipt Type'' \<mapsto> ''Retail Sale'', ''Profit'' \<mapsto> ''$3.00'',
       ''Date Created'' \<mapsto> ''01/01/2024'']]"

definition unsortedResult :: "jsnum AppState" where
  "unsortedResult =
     \<lparr>salesData =
        \<lparr>retailTotal = Num 9, clubTotal = 0, fileName = ''sales.csv'',
         dailyData =
           [\<lparr>date = ''02/01/2024'', retail = Num 3, club = 0, total' = Num 3\<rparr>,
            \<lparr>date = ''garbage'', retail = Num 3, club = 0, total' = Num 3\<rparr>,
            \<lparr>date = ''01/01/2024'', retail = Num 3, club = 0, total' = Num 3\<rparr>]\<rparr>,
      availableMonths = [''February'', ''January''],
      selectedMonth = ''February''\<rparr>"

definition misdatedRows :: "row list" where
  "misdatedRows =
     [[''Receipt Type'' \<mapsto> ''Retail Sale'', ''Profit'' \<mapsto> ''$3.00'',
       ''Date Created'' \<mapsto> ''03/01/2024''],
      [''Receipt Type'' \<mapsto> ''Retail Sale'', ''Profit'' \<mapsto> ''$3.00'',
       ''Date Created'' \<mapsto> ''02/99/2024''],
      [''Receipt Type'' \<mapsto> ''Retail Sale'', ''Profit'' \<mapsto> ''$3.00'',
       ''Date Created'' \<mapsto> ''04/01/2024'']]"

definition misdatedResult :: "jsnum AppState" where
  "misdatedResult =
     \<lparr>salesData =
        \<lparr>retailTotal = Num 9, clubTotal = 0, fileName = ''sales.csv'',
         dailyData =
           [\<lparr>date = ''03/01/2024'', retail = Num 3, club = 0, total' = Num 3\<rparr>,
            \<lparr>date = ''02/99/2024'', retail = Num 3, club = 0, total' = Num 3\<rparr>,
            \<lparr>date = ''04/01/2024'', retail = Num 3, club = 0, total' = Num 3\<rparr>]\<rparr>,
      availableMonths = [''March'', ''February'', ''April''],
      selectedMonth = ''March''\<rparr>"

definition outOfRangeRows :: "row list" where
  "outOfRangeRows =
     [[''Receipt Type'' \<mapsto> ''Retail Sale'', ''Profit'' \<mapsto> ''$3.00'',
       ''Date Created'' \<mapsto> ''13/01/2024''],
      [''Receipt Type'' \<mapsto> ''Retail Sale'', ''Profit'' \<mapsto> ''$3.00'',
       ''Date Created'' \<mapsto> ''01/05/2024'']]"

definition outOfRangeResult :: "jsnum AppState" where
  "outOfRangeResult =
     \<lparr>salesData =
        \<lparr>retailTotal = Num 6, clubTotal = 0, fileName = ''sales.csv'',
         dailyData =
           [\<lparr>date = ''13/01/2024'', retail = Num 3, club = 0, total' = Num 3\<rparr>,
            \<lparr>date = ''01/05/2024'', retail = Num 3, club = 0, total' = Num 3\<rparr>]\<rparr>,
      availableMonths = [''January''],
      selectedMonth = ''January''\<rparr>"

definition outOfRangeDay :: "jsnum DailyProfit" where
  "outOfRangeDay = \<lparr>date = ''13/01/2024'', retail = Num 3, club = 0, total' = Num 3\<rparr>"

definition roundingRows :: "row list" where
  "roundingRows =
     [[''Receipt Type'' \<mapsto> ''Retail Sale'', ''Profit'' \<mapsto> ''0.1'',
       ''Date Created'' \<mapsto> ''01/05/2024''],
      [''Receipt Type'' \<mapsto> ''Retail Sale'', ''Profit'' \<mapsto> ''0.7'',
       ''Date Created'' \<mapsto> ''02/01/2024''],
      [''Receipt Type'' \<mapsto> ''Retail Sale'', ''Profit'' \<mapsto> ''0.3'',
       ''Date Created'' \<mapsto> ''01/05/2024'']]"

definition roundingResult :: "jsnum AppState" where
  "roundingResult =
     \<lparr>salesData =
        \<lparr>retailTotal = Num (4953959590107545 / 4503599627370496), clubTotal = 0,
         fileName = ''sales.csv'',
         dailyData =
           [\<lparr>date = ''01/05/2024'', retail = Num (3602879701896397 / 9007199254740992),
             club = 0, total' = Num (3602879701896397 / 9007199254740992)\<rparr>,
            \<lparr>date = ''02/01/2024'', retail = Num (3152519739159347 / 4503599627370496),
             club = 0, total' = Num (3152519739159347 / 4503599627370496)\<rparr>]\<rparr>,
      availableMonths = [''February'', ''January''],
      selectedMonth = ''February''\<rparr>"

subsection \<open>Calls of the filters\<close>

datatype call = DailyDataCall string | TotalsCall string

datatype 'n answer = DaysAnswer nat | TotalsAnswer 'n 'n

fun runCalls ::
  "'n::{plus,zero} host \<Rightarrow> Language \<Rightarrow> 'n heap \<Rightarrow> nat \<Rightarrow> call list
     \<Rightarrow> error + 'n answer list \<times> 'n heap" where
  \<comment> \<open>a sequence of calls of the two filter functions on one \<open>dailyData\<close>, as the user
      changes the active month\<close>
  "runCalls h language hp a [] = Inr ([], hp)"
| "runCalls h language hp a (DailyDataCall m # cs) =
     (case getFilteredDailyData_ref h language hp a m of
        Inl e \<Rightarrow> Inl e
      | Inr (r, hp1) \<Rightarrow>
          (case runCalls h language hp1 a cs of
             Inl e \<Rightarrow> Inl e
           | Inr (answers, hp2) \<Rightarrow> Inr (DaysAnswer r # answers, hp2)))"
| "runCalls h language hp a (TotalsCall m # cs) =
     (case getFilteredTotals_ref h language hp a m of
        Inl e \<Rightarrow> Inl e
      | Inr ((rt, ct), hp1) \<Rightarrow>
          (case runCalls h language hp1 a cs of
             Inl e \<Rightarrow> Inl e
           | Inr (answers, hp2) \<Rightarrow> Inr (TotalsAnswer rt ct # answers, hp2)))"

definition answers_call ::
  "'n::{plus,zero} host \<Rightarrow> Language \<Rightarrow> 'n DailyProfit list \<Rightarrow> 'n heap \<Rightarrow> call \<Rightarrow> 'n answer \<Rightarrow> bool" where
  \<comment> \<open>the answer to a call is the one computed from the days alone: for the daily data
      an array that holds the selected days, for the totals their sums from 0\<close>
  "answers_call h language days hp c ans =
     (case c of
        DailyDataCall m \<Rightarrow>
          (case ans of
             DaysAnswer r \<Rightarrow> arrays hp r = Some (getFilteredDailyData h language days m)
           | TotalsAnswer rt ct \<Rightarrow> False)
      | TotalsCall m \<Rightarrow>
          (case ans of
             DaysAnswer r \<Rightarrow> False
           | TotalsAnswer rt ct \<Rightarrow>
               rt = foldl (+) 0 (map retail (getFilteredDailyData h language days m)) \<and>
               ct = foldl (+) 0 (map club (getFilteredDailyData h language days m)) \<and>
               (rt, ct) = getFilteredTotals h language days m))"

definition heap_ok :: "'n heap \<Rightarrow> bool" where
  \<comment> \<open>every array of the heap was allocated\<close>
  "heap_ok hp \<longleftrightarrow> (\<forall>a. a \<in> dom (arrays hp) \<longrightarrow> a < nextRef hp)"

definition heap_kept :: "'n heap \<Rightarrow> 'n heap \<Rightarrow> bool" where
  \<comment> \<open>every array of the first heap is in the second, with the same elements\<close>
  "heap_kept hp hp' \<longleftrightarrow> (\<forall>a xs. arrays hp a = Some xs \<longrightarrow> arrays hp' a = Some xs)"

definition exampleHeap :: "jsnum heap" where
  "exampleHeap = \<lparr>arrays = [0 \<mapsto> dailyData (salesData exampleResult)], nextRef = 1\<rparr>"

definition exampleCalls :: "call list" where
  "exampleCalls = [TotalsCall ''January'', DailyDataCall ''January'', TotalsCall ''ALL'',
                   TotalsCall ''January'']"

definition exampleAnswers :: "jsnum answer list" where
  "exampleAnswers = [TotalsAnswer (Num 10) (Num (11 / 2)), DaysAnswer 2,
                     TotalsAnswer (Num 13) (Num (11 / 2)), TotalsAnswer (Num 10) (Num (11 / 2))]"

subsection \<open>Exact sums\<close>

definition retailRow :: "'n host \<Rightarrow> row \<Rightarrow> bool" where
  \<comment> \<open>the row is added to the retail total\<close>
  "retailRow h row \<longleftrightarrow>
     qualifies h row \<and> (case receiptType row of Some t \<Rightarrow> isRetail t | None \<Rightarrow> False)"

definition clubRow :: "'n host \<Rightarrow> row \<Rightarrow> bool" where
  \<comment> \<open>the row is added to the club total\<close>
  "clubRow h row \<longleftrightarrow>
     qualifies h row \<and>
     (case receiptType row of Some t \<Rightarrow> \<not> isRetail t \<and> isClub t | None \<Rightarrow> False)"

definition amountOf :: "'n host \<Rightarrow> row \<Rightarrow> 'n" where
  \<comment> \<open>the amount of a row that has a profit string\<close>
  "amountOf h row = profit h (case profitString row of Some ps \<Rightarrow> ps | None \<Rightarrow> [])"

definition amounts :: "'n host \<Rightarrow> row list \<Rightarrow> 'n list" where
  \<comment> \<open>the amounts that are added to one of the two totals, in the order of the table\<close>
  "amounts h data = map (amountOf h) (filter (\<lambda>row. retailRow h row \<or> clubRow h row) data)"

definition exactWhenRepresentable :: "('n::{plus,zero} \<Rightarrow> bool) \<Rightarrow> ('n \<Rightarrow> 'm::comm_monoid_add) \<Rightarrow> bool" where
  \<comment> \<open>\<open>val\<close> reads the numbers that are \<open>ok\<close> as elements of an exact arithmetic, one to
      one, and a sum of two such numbers is exact whenever the exact sum is the value of
      such a number\<close>
  "exactWhenRepresentable ok val \<longleftrightarrow>
     ok 0 \<and> val 0 = 0 \<and>
     (\<forall>a c. ok a \<and> ok c \<and> val a = val c \<longrightarrow> a = c) \<and>
     (\<forall>a b c. ok a \<and> ok b \<and> ok c \<and> val c = val a + val b \<longrightarrow> a + b = c)"

definition sumWhere :: "(row \<Rightarrow> 'm::comm_monoid_add) \<Rightarrow> (row \<Rightarrow> bool) \<Rightarrow> row list \<Rightarrow> 'm" where
  \<comment> \<open>the exact sum of the values of the rows that satisfy a condition\<close>
  "sumWhere g P xs = sum_list (map g (filter P xs))"

definition isFiniteDouble :: "jsnum \<Rightarrow> bool" where
  \<comment> \<open>a finite number whose rational is a double\<close>
  "isFiniteDouble x = (case x of Num q \<Rightarrow> toDouble q = Num q | _ \<Rightarrow> False)"

definition valueOf :: "jsnum \<Rightarrow> rat" where
  "valueOf x = (case x of Num q \<Rightarrow> q | _ \<Rightarrow> 0)"

definition exactLocals ::
  "('n::{plus,zero} \<Rightarrow> bool) \<Rightarrow> ('n \<Rightarrow> 'm::comm_monoid_add) \<Rightarrow> 'n host \<Rightarrow> row list \<Rightarrow>
     'n \<times> 'n \<times> 'n dailyMap \<Rightarrow> bool" where
  \<comment> \<open>the locals of the loop after the rows \<open>pre\<close>: each total and each field of each
      bucket is \<open>ok\<close> and its value is the exact sum of the amounts added to it; every row
      that adds to a total has its date among the keys\<close>
  "exactLocals ok val h pre locals =
     (case locals of (rt, ct, dm) \<Rightarrow>
        ok rt \<and> val rt = sumWhere (\<lambda>x. val (amountOf h x)) (retailRow h) pre \<and>
        ok ct \<and> val ct = sumWhere (\<lambda>x. val (amountOf h x)) (clubRow h) pre \<and>
        distinct (map fst dm) \<and>
        (\<forall>(d, r, c) \<in> set dm.
           ok r \<and> val r = sumWhere (\<lambda>x. val (amountOf h x))
                             (\<lambda>x. retailRow h x \<and> dateCreated x = Some d) pre \<and>
           ok c \<and> val c = sumWhere (\<lambda>x. val (amountOf h x))
                             (\<lambda>x. clubRow h x \<and> dateCreated x = Some d) pre) \<and>
        (\<forall>x \<in> set pre. retailRow h x \<or> clubRow h x \<longrightarrow>
           (\<exists>d. dateCreated x = Some d \<and> d \<in> fst ` set dm)))"

section \<open>One row\<close>

lemma forEach_append:
  "forEach f s (xs @ ys) = (case forEach f s xs of Inl e \<Rightarrow> Inl e | Inr s' \<Rightarrow> forEach f s' ys)"
  by (induction xs arbitrary: s) (auto split: sum.splits)

lemma map_of_snoc_new: "map_of m k = None \<Longrightarrow> map_of (m @ [(k, v)]) k = Some v"
  by (induction m) (auto split: if_splits)

lemma update_snoc_new: "map_of m k = None \<Longrightarrow> AList.update k v (m @ [(k, w)]) = m @ [(k, v)]"
  by (induction m) (auto split: if_splits)

lemma update_same: "map_of m k = Some v \<Longrightarrow> AList.update k v m = m"
  by (induction m) (auto split: if_splits)

lemma processRow_excluded:
  "isExcluded (customerName row) \<Longrightarrow> processRow h locals row = Inr locals"
  by (cases locals) (simp add: processRow_def)

lemma processRow_returns: "\<exists>locals'. processRow h locals row = Inr locals'"
proof -
  obtain rt ct dm where l: "locals = (rt, ct, dm)" using prod_cases3 by blast
  have get: "\<And>k. \<exists>v. map_of (if map_of dm k = None then dm @ [(k, (0, 0))] else dm) k = Some v"
    using map_of_snoc_new [of dm] by (simp del: map_of_append)
  show ?thesis
    unfolding l processRow_def Let_def using get
    by (auto split: option.splits prod.splits)
qed

lemma forEach_returns: "\<exists>locals'. forEach (processRow h) locals rows = Inr locals'"
proof (induction rows arbitrary: locals)
  case Nil
  show ?case by (simp del: split_paired_Ex)
next
  case (Cons row rows)
  obtain l1 where "processRow h locals row = Inr l1"
    using processRow_returns by blast
  then show ?case using Cons.IH [of l1] by (simp del: split_paired_Ex)
qed

lemma calculateTotals_cong:
  "forEach (processRow h) (0, 0, []) xs = forEach (processRow h) (0, 0, []) ys \<Longrightarrow>
   calculateTotals h language xs f = calculateTotals h language ys f"
  by (simp add: calculateTotals_def)

lemma forEach_swap_row:
  "(\<And>s. f s x = f s y) \<Longrightarrow> forEach f s (xs @ x # zs) = forEach f s (xs @ y # zs)"
  by (simp add: forEach_append split: sum.splits)

lemma forEach_drop_row:
  "(\<And>s. f s x = Inr s) \<Longrightarrow> forEach f s (xs @ x # zs) = forEach f s (xs @ zs)"
  by (simp add: forEach_append split: sum.splits)

lemma toLowerCase_trim_Nil: "toLowerCase (trim []) = []"
  by (simp add: toLowerCase_def trim_def trimStart_def)

text \<open>
  Claim C3. A row whose resolved customer name, trimmed and lower-cased, is
  \<open>ashley regis\<close> leaves the two running totals and the map of buckets as they
  were, whatever its receipt type, amount and date; the aggregation of a table with
  such a row is the aggregation of the table without it.
\<close>

theorem excluded_customer_row_is_skipped:
  assumes "customerName row = Some name"
    and "toLowerCase (trim name) = ''ashley regis''"
  shows "processRow h locals row = Inr locals \<and>
         calculateTotals h language (before @ row # after) f =
           calculateTotals h language (before @ after) f"
proof -
  have "name \<noteq> []"
    using assms(2) toLowerCase_trim_Nil by auto
  then have ex: "isExcluded (customerName row)"
    using assms by (simp add: isExcluded_def)
  then have skip: "\<And>s. processRow h s row = Inr s"
    by (rule processRow_excluded)
  have "forEach (processRow h) (0, 0, []) (before @ row # after) =
        forEach (processRow h) (0, 0, []) (before @ after)"
    by (rule forEach_drop_row) (rule skip)
  then show ?thesis
    using skip calculateTotals_cong by blast
qed

text \<open>The three spellings of the specification are names of the excluded customer.\<close>

lemma excluded_spellings:
  "toLowerCase (trim ''Ashley Regis'') = ''ashley regis''"
  "toLowerCase (trim ''ashley regis'') = ''ashley regis''"
  "toLowerCase (trim ''  ASHLEY REGIS  '') = ''ashley regis''"
  by code_simp+

text \<open>
  The spelling with blanks around it, in capitals, on a retail row with an amount and a
  date.
\<close>

theorem excluded_customer_row_is_skipped_witness:
  "customerName [''Receipt Type'' \<mapsto> ''Retail Sale'', ''Profit'' \<mapsto> ''$5.00'',
                 ''Date Created'' \<mapsto> ''01/05/2024'', ''Customer Name'' \<mapsto> ''  ASHLEY REGIS  '']
     = Some ''  ASHLEY REGIS  '' \<and>
   toLowerCase (trim ''  ASHLEY REGIS  '') = ''ashley regis'' \<and>
   processRow engine (0, 0, [])
     [''Receipt Type'' \<mapsto> ''Retail Sale'', ''Profit'' \<mapsto> ''$5.00'',
      ''Date Created'' \<mapsto> ''01/05/2024'', ''Customer Name'' \<mapsto> ''  ASHLEY REGIS  '']
     = Inr (0, 0, [])"
proof -
  have a: "customerName [''Receipt Type'' \<mapsto> ''Retail Sale'', ''Profit'' \<mapsto> ''$5.00'',
                 ''Date Created'' \<mapsto> ''01/05/2024'', ''Customer Name'' \<mapsto> ''  ASHLEY REGIS  '']
     = Some ''  ASHLEY REGIS  ''"
    by (simp add: customerName_def or_else_def)
  have b: "toLowerCase (trim ''  ASHLEY REGIS  '') = ''ashley regis''"
    by code_simp
  show ?thesis
    using excluded_customer_row_is_skipped [OF a b, of engine "(0, 0, [])"] a b by blast
qed

lemma englishRow_fields:
  "receiptType (englishRow k a d n) = Some (englishValue k)"
  "profitString (englishRow k a d n) = (if a = [] then None else Some a)"
  "dateCreated (englishRow k a d n) = (if d = [] then None else Some d)"
  "customerName (englishRow k a d n) = (case n of None \<Rightarrow> None | Some c \<Rightarrow> if c = [] then None else n)"
  by (auto simp: englishRow_def receiptType_def profitString_def dateCreated_def customerName_def
      or_else_def englishValue_def Fecha_de_creacion_def split: category.splits option.splits)

lemma spanishRow_fields:
  "receiptType (spanishRow k a d n) = Some (spanishValue k)"
  "profitString (spanishRow k a d n) = Some a"
  "dateCreated (spanishRow k a d n) = Some d"
  "customerName (spanishRow k a d n) = n"
  by (auto simp: spanishRow_def receiptType_def profitString_def dateCreated_def customerName_def
      or_else_def spanishValue_def Fecha_de_creacion_def split: category.splits option.splits)

lemma category_values:
  "englishValue k \<noteq> []" "spanishValue k \<noteq> []"
  "isRetail (spanishValue k) = isRetail (englishValue k)"
  "isClub (spanishValue k) = isClub (englishValue k)"
  by (cases k; simp add: englishValue_def spanishValue_def isRetail_def isClub_def)+

lemma addToDay_category:
  "addToDay p (spanishValue k) v = addToDay p (englishValue k) v"
  by (cases v) (simp add: addToDay_def category_values)

lemma processRow_locale:
  "processRow h locals (spanishRow k a d n) = processRow h locals (englishRow k a d n)"
  by (cases locals)
     (auto simp: processRow_def englishRow_fields spanishRow_fields category_values
        addToDay_category isExcluded_def Let_def split: option.splits)

text \<open>
  Claim C5. For every amount, date and customer name, and for both categories, the row
  with the Spanish headers and the Spanish category value has the same effect on the
  totals and the buckets as the row with the English headers and the English value,
  from every state of the loop and at every place of a table.
\<close>

theorem spanish_row_aggregates_like_english_row:
  "processRow h locals (spanishRow k amount d name) =
     processRow h locals (englishRow k amount d name) \<and>
   calculateTotals h language (before @ spanishRow k amount d name # after) f =
     calculateTotals h language (before @ englishRow k amount d name # after) f"
proof -
  have "forEach (processRow h) (0, 0, []) (before @ spanishRow k amount d name # after) =
        forEach (processRow h) (0, 0, []) (before @ englishRow k amount d name # after)"
    by (rule forEach_swap_row) (rule processRow_locale)
  then show ?thesis
    using processRow_locale calculateTotals_cong by blast
qed

lemma processRow_unrecognized:
  assumes "receiptType row = Some t" "t \<noteq> []" "\<not> isRetail t" "\<not> isClub t"
    and "profitString row = Some ps" "ps \<noteq> []" "\<not> isNaN h (profit h ps)"
    and "dateCreated row = Some d" "d \<noteq> []"
    and "\<not> isExcluded (customerName row)"
  shows "processRow h (rt, ct, dm) row =
           Inr (rt, ct, if map_of dm d = None then dm @ [(d, (0, 0))] else dm)"
proof (cases "map_of dm d")
  case None
  then show ?thesis
    using assms map_of_snoc_new [OF None, of "(0, 0)"] update_snoc_new [OF None, of "(0, 0)" "(0, 0)"]
    by (simp add: processRow_def Let_def addToDay_def del: map_of_append)
next
  case (Some v)
  then show ?thesis
    using assms update_same [OF Some]
    by (cases v) (simp add: processRow_def Let_def addToDay_def)
qed

text \<open>
  Claim C8. A row that reaches the classification (its customer is not the excluded
  one, which the guard before it has taken out) with a non-empty receipt type that is
  none of the four category strings, an amount that \<open>parseFloat\<close> reads and a
  non-empty date leaves both running totals unchanged; the bucket of its date string
  is left as it is when it exists, and is appended as (0, 0) when it does not.
\<close>

theorem unrecognized_type_creates_empty_bucket:
  assumes "receiptType row = Some t" and "t \<noteq> []" and "\<not> isRetail t" and "\<not> isClub t"
    and "profitString row = Some ps" and "ps \<noteq> []" and "\<not> isNaN h (profit h ps)"
    and "dateCreated row = Some d" and "d \<noteq> []"
    and "\<not> isExcluded (customerName row)"
  shows "\<exists>dailyMap'.
           processRow h (retailTotal0, clubTotal0, dailyMap0) row =
             Inr (retailTotal0, clubTotal0, dailyMap') \<and>
           map_of dailyMap' d = (case map_of dailyMap0 d of None \<Rightarrow> Some (0, 0) | Some v \<Rightarrow> Some v) \<and>
           dailyMap' = (if map_of dailyMap0 d = None then dailyMap0 @ [(d, (0, 0))] else dailyMap0)"
proof -
  have "processRow h (retailTotal0, clubTotal0, dailyMap0) row =
          Inr (retailTotal0, clubTotal0,
               if map_of dailyMap0 d = None then dailyMap0 @ [(d, (0, 0))] else dailyMap0)"
    using assms by (rule processRow_unrecognized)
  moreover have "map_of (if map_of dailyMap0 d = None then dailyMap0 @ [(d, (0, 0))] else dailyMap0) d
                 = (case map_of dailyMap0 d of None \<Rightarrow> Some (0, 0) | Some v \<Rightarrow> Some v)"
    using map_of_snoc_new [of dailyMap0 d "(0, 0)"]
    by (simp split: option.splits del: map_of_append)
  ultimately show ?thesis by blast
qed

lemma refundRow_fields:
  "receiptType refundRow = Some ''Refund''" "profitString refundRow = Some ''$2.00''"
  "dateCreated refundRow = Some ''01/06/2024''" "customerName refundRow = None"
  by (simp_all add: refundRow_def receiptType_def profitString_def dateCreated_def
      customerName_def or_else_def Fecha_de_creacion_def)

lemma engine_fields:
  "isNaN engine x \<longleftrightarrow> x = NaN" "parseFloat engine = double_parseFloat" "Date engine = usDate"
  by (simp_all add: engine_def)

lemma refundRow_profit: "profit engine ''$2.00'' = Num 2"
  by code_simp

text \<open>
  The row of the specification's example, after a day with both kinds of sale.
\<close>

theorem unrecognized_type_creates_empty_bucket_witness:
  "receiptType refundRow = Some ''Refund'' \<and> \<not> isRetail ''Refund'' \<and> \<not> isClub ''Refund'' \<and>
   profitString refundRow = Some ''$2.00'' \<and> \<not> isNaN engine (profit engine ''$2.00'') \<and>
   dateCreated refundRow = Some ''01/06/2024'' \<and> \<not> isExcluded (customerName refundRow) \<and>
   processRow engine (Num 13, Num 5, [(''01/05/2024'', (Num 13, Num 5))]) refundRow =
     Inr (Num 13, Num 5, [(''01/05/2024'', (Num 13, Num 5)), (''01/06/2024'', (0, 0))])"
proof -
  have t: "\<not> isRetail ''Refund''" "\<not> isClub ''Refund''"
    by (simp_all add: isRetail_def isClub_def)
  have p: "\<not> isNaN engine (profit engine ''$2.00'')"
    by (simp add: refundRow_profit engine_fields)
  have c: "\<not> isExcluded (customerName refundRow)"
    by (simp add: refundRow_fields isExcluded_def)
  have ne: "''Refund'' \<noteq> []" "''$2.00'' \<noteq> []" "''01/06/2024'' \<noteq> []"
    by simp_all
  show ?thesis
    using unrecognized_type_creates_empty_bucket
      [OF refundRow_fields(1) ne(1) t refundRow_fields(2) ne(2) p refundRow_fields(3) ne(3) c,
       of "Num 13" "Num 5" "[(''01/05/2024'', (Num 13, Num 5))]"]
      refundRow_fields t p c
    by auto
qed

lemma processRow_not_qualifying:
  "\<not> qualifies h row \<Longrightarrow> processRow h locals row = Inr locals"
  by (cases locals) (auto simp: processRow_def qualifies_def Let_def split: option.splits)


section \<open>The amount of a row\<close>

lemma replace_absent: "c \<notin> set s \<Longrightarrow> replace c [] s = s"
  by (induction s) auto







section \<open>The aggregation returns\<close>

lemma forEach_invariant:
  assumes "forEach f s xs = Inr s'" and "P s"
    and "\<And>s x s'. x \<in> set xs \<Longrightarrow> P s \<Longrightarrow> f s x = Inr s' \<Longrightarrow> P s'"
  shows "P s'"
  using assms
proof (induction xs arbitrary: s)
  case Nil
  then show ?case by simp
next
  case (Cons x xs)
  obtain s1 where s1: "f s x = Inr s1"
    using Cons.prems(1) by (cases "f s x") auto
  have "P s1"
    using Cons.prems(2,3) s1 by auto
  moreover have "forEach f s1 xs = Inr s'"
    using Cons.prems(1) s1 by simp
  ultimately show ?case
    using Cons.IH Cons.prems(3) by auto
qed

lemma sort_with_Nil: "sort_with cmp [] = []"
  by (simp add: sort_with_def)

lemma getAllUniqueMonths_Nil: "getAllUniqueMonths h language [] = []"
  by (simp add: getAllUniqueMonths_def)

lemma calculateTotals_fields:
  assumes "forEach (processRow h) (0, 0, []) data = Inr (rt, ct, dm)"
  shows "\<exists>r. calculateTotals h language data f = Inr r \<and>
             retailTotal (salesData r) = rt \<and> clubTotal (salesData r) = ct \<and>
             fileName (salesData r) = f \<and>
             dailyData (salesData r) =
               sort_with (\<lambda>a b. minus_time (dateTime h (date a)) (dateTime h (date b)))
                 (map toDailyProfit dm) \<and>
             availableMonths r = getAllUniqueMonths h language (dailyData (salesData r))"
  using assms by (simp add: calculateTotals_def Let_def)

lemma processRow_totals_unrecognized:
  assumes "\<not> isRecognized row" and "processRow h (rt, ct, dm) row = Inr (rt', ct', dm')"
  shows "rt' = rt \<and> ct' = ct"
  using assms
  by (auto simp: processRow_def isRecognized_def Let_def split: option.splits if_splits)

lemma processRow_map_undated:
  assumes "\<not> hasDate row" and "processRow h (rt, ct, dm) row = Inr (rt', ct', dm')"
  shows "dm' = dm"
  using assms
  by (auto simp: processRow_def hasDate_def Let_def split: option.splits if_splits)

text \<open>
  Claim C9. On every list of rows (maps from strings to strings) the aggregation
  returns a result: the one place where the program could read a field of undefined,
  the bucket it has just looked up or inserted, always finds the bucket. When no row
  qualifies the result is the two totals 0, an empty daily series, no month and the
  filter \<open>ALL\<close>; when no qualifying row has a recognized type both totals are 0, and
  when no qualifying row has a date the daily series is empty.
\<close>

theorem aggregation_returns:
  "(\<exists>r. calculateTotals h language data f = Inr r) \<and>
   ((\<forall>row \<in> set data. \<not> qualifies h row) \<longrightarrow>
      calculateTotals h language data f =
        Inr \<lparr>salesData = \<lparr>retailTotal = 0, clubTotal = 0, fileName = f, dailyData = []\<rparr>,
             availableMonths = [], selectedMonth = ''ALL''\<rparr>) \<and>
   ((\<forall>row \<in> set data. qualifies h row \<longrightarrow> \<not> isRecognized row) \<longrightarrow>
      (\<forall>r. calculateTotals h language data f = Inr r \<longrightarrow>
           retailTotal (salesData r) = 0 \<and> clubTotal (salesData r) = 0)) \<and>
   ((\<forall>row \<in> set data. qualifies h row \<longrightarrow> \<not> hasDate row) \<longrightarrow>
      (\<forall>r. calculateTotals h language data f = Inr r \<longrightarrow>
           dailyData (salesData r) = [] \<and> availableMonths r = []))"
proof -
  obtain rt ct dm where fin: "forEach (processRow h) (0, 0, []) data = Inr (rt, ct, dm)"
    using forEach_returns [of h "(0, 0, [])" data] by auto
  obtain r where r: "calculateTotals h language data f = Inr r"
    "retailTotal (salesData r) = rt" "clubTotal (salesData r) = ct"
    "dailyData (salesData r) =
       sort_with (\<lambda>a b. minus_time (dateTime h (date a)) (dateTime h (date b)))
         (map toDailyProfit dm)"
    "availableMonths r = getAllUniqueMonths h language (dailyData (salesData r))"
    using calculateTotals_fields [OF fin] by blast
  have none: "calculateTotals h language data f =
        Inr \<lparr>salesData = \<lparr>retailTotal = 0, clubTotal = 0, fileName = f, dailyData = []\<rparr>,
             availableMonths = [], selectedMonth = ''ALL''\<rparr>"
    if a: "\<forall>row \<in> set data. \<not> qualifies h row"
  proof -
    have step: "s' = (0, 0, [])"
      if "row \<in> set data" "s = (0, 0, [])" "processRow h s row = Inr s'" for s row s'
      using processRow_not_qualifying [of h row s] that a by simp
    have "(rt, ct, dm) = (0, 0, [])"
      by (rule forEach_invariant [OF fin, where P = "\<lambda>s. s = (0, 0, [])"])
         (use step in auto)
    then show ?thesis
      using fin by (simp add: calculateTotals_def sort_with_Nil getAllUniqueMonths_Nil)
  qed
  have unrec: "rt = 0 \<and> ct = 0"
    if a: "\<forall>row \<in> set data. qualifies h row \<longrightarrow> \<not> isRecognized row"
  proof -
    have step: "rt1 = 0 \<and> ct1 = 0"
      if "row \<in> set data" "rt0 = 0 \<and> ct0 = 0"
        "processRow h (rt0, ct0, dm0) row = Inr (rt1, ct1, dm1)"
      for row rt0 ct0 dm0 rt1 ct1 dm1
    proof (cases "qualifies h row")
      case True
      then have "\<not> isRecognized row" using a that(1) by blast
      then show ?thesis
        using processRow_totals_unrecognized [OF _ that(3)] that(2) by simp
    next
      case False
      then show ?thesis
        using processRow_not_qualifying [of h row "(rt0, ct0, dm0)"] that(2,3) by simp
    qed
    have "case (rt, ct, dm) of (a, b, c) \<Rightarrow> a = 0 \<and> b = 0"
    proof (rule forEach_invariant [OF fin, where P = "\<lambda>(a, b, c). a = 0 \<and> b = 0"])
      show "case (0, 0, []) of (a, b, c) \<Rightarrow> a = 0 \<and> b = 0"
        by simp
    next
      fix s x s'
      assume x: "x \<in> set data" and p: "case s of (a, b, c) \<Rightarrow> a = 0 \<and> b = 0"
        and st: "processRow h s x = Inr s'"
      obtain a b c a' b' c' where s: "s = (a, b, c)" "s' = (a', b', c')"
        using prod_cases3 by metis
      have "a' = 0 \<and> b' = 0"
        using step [OF x _ st [unfolded s]] p s by simp
      then show "case s' of (a, b, c) \<Rightarrow> a = 0 \<and> b = 0"
        by (simp add: s)
    qed
    then show ?thesis by simp
  qed
  have undated: "dm = []"
    if a: "\<forall>row \<in> set data. qualifies h row \<longrightarrow> \<not> hasDate row"
  proof -
    have step: "dm1 = []"
      if "row \<in> set data" "dm0 = []"
        "processRow h (rt0, ct0, dm0) row = Inr (rt1, ct1, dm1)"
      for row rt0 ct0 dm0 rt1 ct1 dm1
    proof (cases "qualifies h row")
      case True
      then have "\<not> hasDate row" using a that(1) by blast
      then show ?thesis
        using processRow_map_undated [OF _ that(3)] that(2) by simp
    next
      case False
      then show ?thesis
        using processRow_not_qualifying [of h row "(rt0, ct0, dm0)"] that(2,3) by simp
    qed
    have "case (rt, ct, dm) of (a, b, c) \<Rightarrow> c = []"
    proof (rule forEach_invariant [OF fin, where P = "\<lambda>(a, b, c). c = []"])
      show "case (0, 0, []) of (a, b, c) \<Rightarrow> c = []"
        by simp
    next
      fix s x s'
      assume x: "x \<in> set data" and p: "case s of (a, b, c) \<Rightarrow> c = []"
        and st: "processRow h s x = Inr s'"
      obtain a b c a' b' c' where s: "s = (a, b, c)" "s' = (a', b', c')"
        using prod_cases3 by metis
      have "c' = []"
        using step [OF x _ st [unfolded s]] p s by simp
      then show "case s' of (a, b, c) \<Rightarrow> c = []"
        by (simp add: s)
    qed
    then show ?thesis by simp
  qed
  show ?thesis
    using r none unrec undated by (auto simp: sort_with_Nil getAllUniqueMonths_Nil)
qed

lemma skippedRows_qualify:
  "\<not> qualifies engine noProfitRow" "\<not> qualifies engine excludedRefundRow"
  "\<not> qualifies engine Map.empty"
proof -
  have "profit engine ''N/A'' = NaN"
    by code_simp
  then show "\<not> qualifies engine noProfitRow"
    by (simp add: qualifies_def noProfitRow_def receiptType_def profitString_def or_else_def
        engine_fields)
  have "toLowerCase (trim ''Ashley Regis'') = ''ashley regis''"
    by code_simp
  then show "\<not> qualifies engine excludedRefundRow"
    by (simp add: qualifies_def excludedRefundRow_def refundRow_def customerName_def or_else_def
        isExcluded_def)
  show "\<not> qualifies engine Map.empty"
    by (simp add: qualifies_def receiptType_def or_else_def)
qed

lemma undatedRefundRow_facts:
  "qualifies engine undatedRefundRow" "\<not> isRecognized undatedRefundRow"
  "\<not> hasDate undatedRefundRow"
  using refundRow_profit
  by (simp_all add: qualifies_def undatedRefundRow_def receiptType_def profitString_def
      customerName_def dateCreated_def or_else_def isExcluded_def engine_fields isRecognized_def
      hasDate_def isRetail_def isClub_def Fecha_de_creacion_def)

text \<open>
  A table of three skipped rows (an amount that is not a number, the excluded customer
  and an empty row), and a table of one refund without a date.
\<close>

theorem aggregation_returns_witness:
  "\<not> qualifies engine noProfitRow \<and> \<not> qualifies engine excludedRefundRow \<and>
   \<not> qualifies engine Map.empty \<and>
   calculateTotals engine En [noProfitRow, excludedRefundRow, Map.empty] ''sales.csv'' =
     Inr \<lparr>salesData = \<lparr>retailTotal = 0, clubTotal = 0, fileName = ''sales.csv'',
                          dailyData = []\<rparr>,
          availableMonths = [], selectedMonth = ''ALL''\<rparr> \<and>
   qualifies engine undatedRefundRow \<and> \<not> isRecognized undatedRefundRow \<and>
   \<not> hasDate undatedRefundRow \<and>
   (\<exists>r. calculateTotals engine En [undatedRefundRow] ''sales.csv'' = Inr r \<and>
        retailTotal (salesData r) = 0 \<and> clubTotal (salesData r) = 0 \<and>
        dailyData (salesData r) = [] \<and> availableMonths r = [])"
proof -
  have a: "\<forall>row \<in> set [noProfitRow, excludedRefundRow, Map.empty]. \<not> qualifies engine row"
    using skippedRows_qualify by simp
  have b: "\<forall>row \<in> set [undatedRefundRow]. qualifies engine row \<longrightarrow> \<not> isRecognized row"
    "\<forall>row \<in> set [undatedRefundRow]. qualifies engine row \<longrightarrow> \<not> hasDate row"
    using undatedRefundRow_facts by simp_all
  have "calculateTotals engine En [noProfitRow, excludedRefundRow, Map.empty] ''sales.csv'' =
     Inr \<lparr>salesData = \<lparr>retailTotal = 0, clubTotal = 0, fileName = ''sales.csv'',
                          dailyData = []\<rparr>,
          availableMonths = [], selectedMonth = ''ALL''\<rparr>"
    using aggregation_returns [of engine En "[noProfitRow, excludedRefundRow, Map.empty]" "''sales.csv''"] a
    by blast
  moreover have "\<exists>r. calculateTotals engine En [undatedRefundRow] ''sales.csv'' = Inr r \<and>
        retailTotal (salesData r) = 0 \<and> clubTotal (salesData r) = 0 \<and>
        dailyData (salesData r) = [] \<and> availableMonths r = []"
    using aggregation_returns [of engine En "[undatedRefundRow]" "''sales.csv''"] b
    by blast
  ultimately show ?thesis
    using skippedRows_qualify undatedRefundRow_facts by blast
qed

section \<open>The example of the specification, evaluated\<close>

lemmas row_eval =
  receiptType_def profitString_def dateCreated_def customerName_def or_else_def
  Fecha_de_creacion_def isExcluded_def isRetail_def isClub_def addToDay_def

lemmas month_eval =
  getAllUniqueMonths_def monthNameAt_def monthNames_def Set_add_def
  latest_def max_time_def minus_time_def comparatorValue_def sort_with_def

lemma example_profits:
  "profit engine ''$10.00'' = Num 10" "profit engine ''$5.50'' = Num (11 / 2)"
  "profit engine ''$3.00'' = Num 3"
  by code_simp+

lemma example_doubles:
  "toDouble 3 = Num 3" "toDouble 10 = Num 10" "toDouble 13 = Num 13"
  "toDouble (11 / 2) = Num (11 / 2)" "toDouble (31 / 2) = Num (31 / 2)"
  by code_simp+

lemma example_dates:
  "usDate ''01/05/2024'' = Some \<lparr>getTime = 1704412800000, getMonth = 0\<rparr>"
  "usDate ''02/01/2024'' = Some \<lparr>getTime = 1706745600000, getMonth = 1\<rparr>"
  by code_simp+

lemma example_months:
  "getMonthFromDate engine En ''01/05/2024'' = ''January''"
  "getMonthFromDate engine En ''02/01/2024'' = ''February''"
  by code_simp+

lemma example_run:
  "forEach (processRow engine) (0, 0, []) exampleRows =
     Inr (Num 13, Num (11 / 2), [(''01/05/2024'', (Num 10, Num (11 / 2))),
                                  (''02/01/2024'', (Num 3, 0))])"
  by (simp add: exampleRows_def processRow_def row_eval engine_fields example_profits
      example_doubles zero_jsnum_def Let_def)

lemma example_aggregation:
  "calculateTotals engine En exampleRows ''sales.csv'' = Inr exampleResult"
  using example_run
  by (simp add: calculateTotals_def exampleResult_def toDailyProfit_def
      month_eval engine_fields dateTime_def example_dates example_months example_doubles
      zero_jsnum_def)

section \<open>The daily series\<close>

lemma update_snoc_absent:
  "map_of m k = None \<Longrightarrow> AList.update k v (m @ [(k, w)]) = AList.update k v m"
  by (induction m) (auto split: if_splits)

lemma processRow_qualifying:
  assumes "qualifies h row" and "receiptType row = Some t" and "profitString row = Some ps"
  shows "processRow h (rt, ct, dm) row =
           Inr (if isRetail t then rt + profit h ps else rt,
                if isRetail t then ct else if isClub t then ct + profit h ps else ct,
                case dateCreated row of
                  None \<Rightarrow> dm
                | Some d \<Rightarrow> if d = [] then dm
                            else AList.update d (addToDay (profit h ps) t (bucketOf dm d)) dm)"
proof -
  have q: "\<not> isExcluded (customerName row)" "t \<noteq> []" "ps \<noteq> []" "\<not> isNaN h (profit h ps)"
    using assms by (simp_all add: qualifies_def)
  show ?thesis
  proof (cases "dateCreated row")
    case None
    then show ?thesis
      using q assms(2,3) by (simp add: processRow_def Let_def)
  next
    case (Some d)
    show ?thesis
    proof (cases "map_of dm d")
      case None
      then show ?thesis
        using q assms(2,3) Some map_of_snoc_new [OF None, of "(0, 0)"]
          update_snoc_absent [OF None]
        by (simp add: processRow_def Let_def bucketOf_def del: map_of_append)
    next
      case (Some v)
      then show ?thesis
        using q assms(2,3) \<open>dateCreated row = Some d\<close>
        by (simp add: processRow_def Let_def bucketOf_def)
    qed
  qed
qed

lemma processRow_keys:
  assumes "processRow h (rt, ct, dm) row = Inr (rt', ct', dm')"
  shows "map fst dm' = foldl Set_add (map fst dm) (datedKeys h [row])"
proof (cases "qualifies h row")
  case False
  then show ?thesis
    using assms processRow_not_qualifying [of h row "(rt, ct, dm)"]
    by (simp add: datedKeys_def List.map_filter_simps)
next
  case True
  then obtain t ps where f: "receiptType row = Some t" "profitString row = Some ps"
    by (auto simp: qualifies_def split: option.splits)
  have dm': "dm' = (case dateCreated row of
                      None \<Rightarrow> dm
                    | Some d \<Rightarrow> if d = [] then dm
                                else AList.update d (addToDay (profit h ps) t (bucketOf dm d)) dm)"
    using assms processRow_qualifying [OF True f, of rt ct dm] by simp
  show ?thesis
  proof (cases "hasDate row")
    case False
    then have "dm' = dm"
      using dm' by (auto simp: hasDate_def split: option.splits)
    then show ?thesis
      using False by (simp add: datedKeys_def List.map_filter_simps)
  next
    case hd: True
    then obtain d where d: "dateCreated row = Some d" "d \<noteq> []"
      by (auto simp: hasDate_def split: option.splits)
    have "map fst dm' = Set_add (map fst dm) d"
      using dm' d by (simp add: update_keys Set_add_def)
    then show ?thesis
      using hd True d by (simp add: datedKeys_def List.map_filter_simps)
  qed
qed

lemma datedKeys_Cons: "datedKeys h (row # data) = datedKeys h [row] @ datedKeys h data"
  by (simp add: datedKeys_def List.map_filter_simps split: option.splits)

lemma forEach_keys:
  assumes "forEach (processRow h) (rt, ct, dm) data = Inr (rt', ct', dm')"
  shows "map fst dm' = foldl Set_add (map fst dm) (datedKeys h data)"
  using assms
proof (induction data arbitrary: rt ct dm)
  case Nil
  then show ?case by (simp add: datedKeys_def List.map_filter_simps)
next
  case (Cons row data)
  obtain rt1 ct1 dm1 where s1: "processRow h (rt, ct, dm) row = Inr (rt1, ct1, dm1)"
    using processRow_returns [of h "(rt, ct, dm)" row] by auto
  then have "forEach (processRow h) (rt1, ct1, dm1) data = Inr (rt', ct', dm')"
    using Cons.prems by simp
  then have "map fst dm' = foldl Set_add (map fst dm1) (datedKeys h data)"
    by (rule Cons.IH)
  then show ?case
    using processRow_keys [OF s1] datedKeys_Cons [of h row data] by simp
qed

lemma mset_insert_sorted: "mset (insert_sorted cmp x ys) = add_mset x (mset ys)"
  by (induction ys) auto

lemma mset_sort_with: "mset (sort_with cmp xs) = mset xs"
  by (induction xs) (simp_all add: sort_with_def mset_insert_sorted)

lemma set_sort_with: "set (sort_with cmp xs) = set xs"
  using mset_sort_with [of cmp xs] by (metis set_mset_mset)

lemma insert_sorted_insort_key:
  assumes "\<forall>y \<in> set ys. cmp x y = Some (key x - key y)"
  shows "insert_sorted cmp x ys = insort_key key x ys"
  using assms by (induction ys) (auto simp: comparatorValue_def)

lemma sort_with_sort_key:
  assumes "\<forall>x \<in> set xs. \<forall>y \<in> set xs. cmp x y = Some (key x - key y)"
  shows "sort_with cmp xs = sort_key key xs"
  using assms
proof (induction xs)
  case Nil
  show ?case by (simp add: sort_with_def)
next
  case (Cons x xs)
  have tl: "sort_with cmp xs = sort_key key xs"
    using Cons by simp
  have "insert_sorted cmp x (sort_key key xs) = insort_key key x (sort_key key xs)"
    using Cons.prems by (intro insert_sorted_insort_key) simp
  then show ?case
    using tl by (simp add: sort_with_def)
qed

lemma toDailyProfit_total: "total' (toDailyProfit e) = retail (toDailyProfit e) + club (toDailyProfit e)"
  by (cases e) (auto simp: toDailyProfit_def)

lemma calculateTotals_run:
  assumes "calculateTotals h language data f = Inr r"
  shows "\<exists>rt ct dm. forEach (processRow h) (0, 0, []) data = Inr (rt, ct, dm) \<and>
           retailTotal (salesData r) = rt \<and> clubTotal (salesData r) = ct \<and>
           dailyData (salesData r) =
             sort_with (\<lambda>a b. minus_time (dateTime h (date a)) (dateTime h (date b)))
               (map toDailyProfit dm) \<and>
           availableMonths r = getAllUniqueMonths h language (dailyData (salesData r))"
proof -
  obtain rt ct dm where fin: "forEach (processRow h) (0, 0, []) data = Inr (rt, ct, dm)"
    using forEach_returns [of h "(0, 0, [])" data] by auto
  show ?thesis
    using calculateTotals_fields [OF fin, of language f] assms fin by auto
qed

text \<open>
  Claim C7, amended. In every aggregation result each entry of the daily series has
  \<open>total' = retail + club\<close>, and the series is a rearrangement of the buckets, whose
  keys stand in the map in the order in which the table first shows them. When the
  engine reads the date string of every bucket, the series is ascending by the time of
  the date (not by the string), and the buckets of one time keep their first-seen
  order.
\<close>

theorem daily_series_sorted_by_time:
  fixes h :: "'n::{plus,zero} host"
  assumes "calculateTotals h language data f = Inr r"
  shows "(\<forall>d \<in> set (dailyData (salesData r)). total' d = retail d + club d) \<and>
         (\<exists>rt ct dm. forEach (processRow h) (0, 0, []) data = Inr (rt, ct, dm) \<and>
            map fst dm = foldl Set_add [] (datedKeys h data) \<and>
            mset (dailyData (salesData r)) = mset (map toDailyProfit dm) \<and>
            ((\<forall>d \<in> set (dailyData (salesData r)). dateTime h (date d) \<noteq> None) \<longrightarrow>
               sorted_wrt (notLater h) (dailyData (salesData r)) \<and>
               (\<forall>t. filter (\<lambda>d. dateTime h (date d) = Some t) (dailyData (salesData r)) =
                    filter (\<lambda>d. dateTime h (date d) = Some t) (map toDailyProfit dm))))"
proof -
  define cmp where
    "cmp = (\<lambda>(a :: 'n DailyProfit) (b :: 'n DailyProfit).
              minus_time (dateTime h (date a)) (dateTime h (date b)))"
  define key where "key = (\<lambda>d :: 'n DailyProfit. the (dateTime h (date d)))"
  obtain rt ct dm where fin: "forEach (processRow h) (0, 0, []) data = Inr (rt, ct, dm)"
    and dd: "dailyData (salesData r) = sort_with cmp (map toDailyProfit dm)"
    using calculateTotals_run [OF assms] unfolding cmp_def by blast
  let ?xs = "map toDailyProfit dm"
  have set_eq: "set (dailyData (salesData r)) = set ?xs"
    by (simp add: dd set_sort_with)
  have tot: "\<forall>d \<in> set (dailyData (salesData r)). total' d = retail d + club d"
    unfolding set_eq using toDailyProfit_total by auto
  have keys: "map fst dm = foldl Set_add [] (datedKeys h data)"
    using forEach_keys [OF fin] by simp
  have perm: "mset (dailyData (salesData r)) = mset ?xs"
    by (simp add: dd mset_sort_with)
  have ord: "sorted_wrt (notLater h) (dailyData (salesData r)) \<and>
             (\<forall>t. filter (\<lambda>d. dateTime h (date d) = Some t) (dailyData (salesData r)) =
                  filter (\<lambda>d. dateTime h (date d) = Some t) ?xs)"
    if valid: "\<forall>d \<in> set (dailyData (salesData r)). dateTime h (date d) \<noteq> None"
  proof -
    have v: "\<And>d. d \<in> set ?xs \<Longrightarrow> dateTime h (date d) = Some (key d)"
      using valid set_eq by (auto simp: key_def)
    have "\<forall>x \<in> set ?xs. \<forall>y \<in> set ?xs. cmp x y = Some (key x - key y)"
      using v by (simp add: cmp_def minus_time_def)
    then have sk: "dailyData (salesData r) = sort_key key ?xs"
      unfolding dd by (rule sort_with_sort_key)
    have "sorted (map key (dailyData (salesData r)))"
      unfolding sk by (rule sorted_sort_key)
    then have "sorted_wrt (\<lambda>a b. key a \<le> key b) (dailyData (salesData r))"
      by (simp add: sorted_map)
    then have s: "sorted_wrt (notLater h) (dailyData (salesData r))"
    proof (rule sorted_wrt_mono_rel [rotated])
      fix a b
      assume "a \<in> set (dailyData (salesData r))" "b \<in> set (dailyData (salesData r))"
        "key a \<le> key b"
      then show "notLater h a b"
        using v set_eq by (simp add: notLater_def)
    qed
    have st: "filter (\<lambda>d. dateTime h (date d) = Some t) (dailyData (salesData r)) =
              filter (\<lambda>d. dateTime h (date d) = Some t) ?xs" for t
    proof -
      have "filter (\<lambda>d. dateTime h (date d) = Some t) (dailyData (salesData r)) =
            filter (\<lambda>d. key d = t) (dailyData (salesData r))"
        using v set_eq by (intro filter_cong) auto
      also have "\<dots> = filter (\<lambda>d. key d = t) ?xs"
        unfolding sk by (rule sort_key_stable)
      also have "\<dots> = filter (\<lambda>d. dateTime h (date d) = Some t) ?xs"
        using v by (intro filter_cong) auto
      finally show ?thesis .
    qed
    show ?thesis using s st by blast
  qed
  show ?thesis
    using tot fin keys perm ord by blast
qed

section \<open>The daily series on two tables\<close>

lemma unsorted_doubles: "toDouble 6 = Num 6" "toDouble 9 = Num 9"
  by code_simp+

lemma unsorted_dates:
  "usDate ''garbage'' = None"
  "usDate ''01/01/2024'' = Some \<lparr>getTime = 1704067200000, getMonth = 0\<rparr>"
  by code_simp+

lemma unsorted_months:
  "getMonthFromDate engine En ''garbage'' = []"
  "getMonthFromDate engine En ''01/01/2024'' = ''January''"
  by code_simp+

lemma unsorted_run:
  "forEach (processRow engine) (0, 0, []) unsortedRows =
     Inr (Num 9, 0, [(''02/01/2024'', (Num 3, 0)), (''garbage'', (Num 3, 0)),
                     (''01/01/2024'', (Num 3, 0))])"
  by (simp add: unsortedRows_def processRow_def row_eval engine_fields example_profits
      example_doubles unsorted_doubles zero_jsnum_def Let_def)

lemma unsorted_aggregation:
  "calculateTotals engine En unsortedRows ''sales.csv'' = Inr unsortedResult"
  using unsorted_run
  by (simp add: calculateTotals_def unsortedResult_def toDailyProfit_def
      month_eval engine_fields dateTime_def example_dates example_months unsorted_dates
      unsorted_months example_doubles zero_jsnum_def)

text \<open>
  The example of the specification: both dates are read, the series is in the order of
  the two times, and each total is the sum of the two fields.
\<close>

theorem daily_series_sorted_by_time_witness:
  "calculateTotals engine En exampleRows ''sales.csv'' = Inr exampleResult \<and>
   map (\<lambda>d. dateTime engine (date d)) (dailyData (salesData exampleResult)) =
     [Some 1704412800000, Some 1706745600000] \<and>
   sorted_wrt (notLater engine) (dailyData (salesData exampleResult)) \<and>
   map total' (dailyData (salesData exampleResult)) = [Num 10 + Num (11 / 2), Num 3 + 0]"
proof -
  have times: "map (\<lambda>d. dateTime engine (date d)) (dailyData (salesData exampleResult)) =
     [Some 1704412800000, Some 1706745600000]"
    by (simp add: exampleResult_def dateTime_def engine_fields example_dates)
  then have valid: "\<forall>d \<in> set (dailyData (salesData exampleResult)). dateTime engine (date d) \<noteq> None"
    by (simp add: exampleResult_def)
  have tot: "map total' (dailyData (salesData exampleResult)) =
             map (\<lambda>d. retail d + club d) (dailyData (salesData exampleResult))"
    using daily_series_sorted_by_time [OF example_aggregation] by simp
  have "sorted_wrt (notLater engine) (dailyData (salesData exampleResult))"
    using daily_series_sorted_by_time [OF example_aggregation] valid by blast
  moreover have "map total' (dailyData (salesData exampleResult)) = [Num 10 + Num (11 / 2), Num 3 + 0]"
    unfolding tot by (simp add: exampleResult_def)
  ultimately show ?thesis
    using example_aggregation times by blast
qed

text \<open>
  Claim C7 as stated fails when a date string is not read by the engine: the comparator
  is then NaN against every other entry, which counts as equal, and the series of the
  table below stays in the order of insertion, February before January.
\<close>

theorem daily_series_unreadable_date_counterexample:
  "calculateTotals engine En unsortedRows ''sales.csv'' = Inr unsortedResult \<and>
   map date (dailyData (salesData unsortedResult)) = [''02/01/2024'', ''garbage'', ''01/01/2024''] \<and>
   dateTime engine ''02/01/2024'' = Some 1706745600000 \<and>
   dateTime engine ''garbage'' = None \<and>
   dateTime engine ''01/01/2024'' = Some 1704067200000"
  using unsorted_aggregation
  by (simp add: unsortedResult_def dateTime_def engine_fields example_dates unsorted_dates)

section \<open>The available months\<close>

lemma monthSet_fold:
  "distinct s \<Longrightarrow>
   distinct (foldl (\<lambda>s day. (let month = getMonthFromDate h language (date day)
                                in if month \<noteq> [] then Set_add s month else s)) s days) \<and>
   set (foldl (\<lambda>s day. (let month = getMonthFromDate h language (date day)
                            in if month \<noteq> [] then Set_add s month else s)) s days)
     = set s \<union> monthLabels h language days"
proof (induction days arbitrary: s)
  case Nil
  then show ?case by (simp add: monthLabels_def)
next
  case (Cons d days)
  let ?m = "getMonthFromDate h language (date d)"
  let ?s = "if ?m \<noteq> [] then Set_add s ?m else s"
  have "distinct ?s" and "set ?s = set s \<union> (if ?m \<noteq> [] then {?m} else {})"
    using Cons.prems by (auto simp: Set_add_def)
  then show ?case
    using Cons.IH [of ?s] by (auto simp: Let_def monthLabels_def)
qed

lemma getAllUniqueMonths_set:
  "distinct (getAllUniqueMonths h language days) \<and>
   set (getAllUniqueMonths h language days) = monthLabels h language days"
proof (cases "days = []")
  case True
  then show ?thesis by (simp add: getAllUniqueMonths_def monthLabels_def)
next
  case False
  define monthSet where
    "monthSet = foldl (\<lambda>s day. (let month = getMonthFromDate h language (date day)
                                  in if month \<noteq> [] then Set_add s month else s)) [] days"
  define cmp where
    "cmp = (\<lambda>a b. minus_time (latest h language days b) (latest h language days a))"
  have ms: "distinct monthSet" "set monthSet = monthLabels h language days"
    using monthSet_fold [of "[]" h language days] by (simp_all add: monthSet_def)
  have g: "getAllUniqueMonths h language days = sort_with cmp monthSet"
    using False by (simp add: getAllUniqueMonths_def monthSet_def cmp_def Let_def)
  have "distinct (sort_with cmp monthSet)"
    using mset_eq_imp_distinct_iff [OF mset_sort_with [of cmp monthSet]] ms(1) by simp
  then show ?thesis
    using ms(2) by (simp add: g set_sort_with)
qed

lemma foldl_max_time_Some:
  "foldl max_time (Some x) (map Some ys) = Some (fold max ys x)"
  by (induction ys arbitrary: x) (simp_all add: max_time_def max.commute)

lemma latest_mostRecent:
  assumes "m \<in> monthLabels h language days"
    and "\<forall>d \<in> set days. getMonthFromDate h language (date d) \<noteq> [] \<longrightarrow> dateTime h (date d) \<noteq> None"
  shows "latest h language days m = Some (mostRecent h language days m)"
proof -
  let ?ds = "filter (\<lambda>d. getMonthFromDate h language (date d) = m) days"
  let ?ts = "map (\<lambda>d. the (dateTime h (date d))) ?ds"
  have ne: "?ds \<noteq> []"
    using assms(1) by (auto simp: monthLabels_def filter_empty_conv)
  have "m \<noteq> []" using assms(1) by (simp add: monthLabels_def)
  then have "map (\<lambda>d. dateTime h (date d)) ?ds = map Some ?ts"
    using assms(2) by (auto simp: map_eq_conv)
  moreover obtain t ts where ts: "?ts = t # ts"
    using ne by (cases ?ts) auto
  ultimately have "latest h language days m = Some (fold max ts t)"
    by (simp add: latest_def foldl_max_time_Some)
  also have "fold max ts t = Max (set (t # ts))"
    using Max.set_eq_fold [of t ts] by simp
  finally show ?thesis
    using ts by (simp add: mostRecent_def)
qed

lemma getAllUniqueMonths_sorted:
  assumes "\<forall>d \<in> set days. getMonthFromDate h language (date d) \<noteq> [] \<longrightarrow> dateTime h (date d) \<noteq> None"
  shows "sorted_wrt (\<lambda>a b. mostRecent h language days b \<le> mostRecent h language days a)
           (getAllUniqueMonths h language days)"
proof (cases "days = []")
  case True
  then show ?thesis by (simp add: getAllUniqueMonths_def)
next
  case False
  define monthSet where
    "monthSet = foldl (\<lambda>s day. (let month = getMonthFromDate h language (date day)
                                  in if month \<noteq> [] then Set_add s month else s)) [] days"
  define key where "key = (\<lambda>m. - mostRecent h language days m)"
  have ms: "set monthSet = monthLabels h language days"
    using monthSet_fold [of "[]" h language days] by (simp add: monthSet_def)
  have "\<forall>a \<in> set monthSet. \<forall>b \<in> set monthSet.
          minus_time (latest h language days b) (latest h language days a) = Some (key a - key b)"
    using latest_mostRecent [OF _ assms] ms by (simp add: minus_time_def key_def)
  then have "sort_with (\<lambda>a b. minus_time (latest h language days b) (latest h language days a)) monthSet
             = sort_key key monthSet"
    by (rule sort_with_sort_key)
  then have "getAllUniqueMonths h language days = sort_key key monthSet"
    using False by (simp add: getAllUniqueMonths_def monthSet_def Let_def)
  moreover have "sorted (map key (sort_key key monthSet))"
    by (rule sorted_sort_key)
  ultimately show ?thesis
    by (simp add: sorted_map key_def)
qed

text \<open>
  Claim C6, amended. In every aggregation result the available months are the month
  labels that occur on the days of the daily series, each once. When the engine reads
  the date of every day that has a month label, the months are in descending order of
  the most recent time of each month, so that no labelled day is later than the most
  recent day of the first month.
\<close>

theorem months_distinct_and_most_recent_first:
  fixes h :: "'n::{plus,zero} host"
  assumes "calculateTotals h language data f = Inr r"
  shows "distinct (availableMonths r) \<and>
         set (availableMonths r) = monthLabels h language (dailyData (salesData r)) \<and>
         ((\<forall>d \<in> set (dailyData (salesData r)).
              getMonthFromDate h language (date d) \<noteq> [] \<longrightarrow> dateTime h (date d) \<noteq> None) \<longrightarrow>
            sorted_wrt (\<lambda>a b. mostRecent h language (dailyData (salesData r)) b
                               \<le> mostRecent h language (dailyData (salesData r)) a)
              (availableMonths r) \<and>
            (\<forall>d \<in> set (dailyData (salesData r)).
               getMonthFromDate h language (date d) \<noteq> [] \<longrightarrow>
               the (dateTime h (date d))
                 \<le> mostRecent h language (dailyData (salesData r)) (hd (availableMonths r))))"
proof -
  let ?days = "dailyData (salesData r)"
  have am: "availableMonths r = getAllUniqueMonths h language ?days"
    using calculateTotals_run [OF assms] by blast
  have basic: "distinct (availableMonths r)" "set (availableMonths r) = monthLabels h language ?days"
    using getAllUniqueMonths_set [of h language ?days] by (simp_all add: am)
  have ord: "sorted_wrt (\<lambda>a b. mostRecent h language ?days b \<le> mostRecent h language ?days a)
               (availableMonths r) \<and>
             (\<forall>d \<in> set ?days. getMonthFromDate h language (date d) \<noteq> [] \<longrightarrow>
                the (dateTime h (date d)) \<le> mostRecent h language ?days (hd (availableMonths r)))"
    if valid: "\<forall>d \<in> set ?days. getMonthFromDate h language (date d) \<noteq> [] \<longrightarrow> dateTime h (date d) \<noteq> None"
  proof -
    have s: "sorted_wrt (\<lambda>a b. mostRecent h language ?days b \<le> mostRecent h language ?days a)
               (availableMonths r)"
      unfolding am using valid by (rule getAllUniqueMonths_sorted)
    have first: "the (dateTime h (date d)) \<le> mostRecent h language ?days (hd (availableMonths r))"
      if d: "d \<in> set ?days" "getMonthFromDate h language (date d) \<noteq> []" for d
    proof -
      let ?m = "getMonthFromDate h language (date d)"
      have "the (dateTime h (date d)) \<le> mostRecent h language ?days ?m"
        unfolding mostRecent_def using d by (intro Max_ge) auto
      moreover have "?m \<in> set (availableMonths r)"
        using d basic(2) by (auto simp: monthLabels_def)
      then have "mostRecent h language ?days ?m \<le> mostRecent h language ?days (hd (availableMonths r))"
        using s by (cases "availableMonths r") auto
      ultimately show ?thesis by simp
    qed
    show ?thesis using s first by blast
  qed
  show ?thesis using basic ord by blast
qed

section \<open>The available months on two tables\<close>

lemma misdated_dates:
  "usDate ''03/01/2024'' = Some \<lparr>getTime = 1709251200000, getMonth = 2\<rparr>"
  "usDate ''02/99/2024'' = None"
  "usDate ''04/01/2024'' = Some \<lparr>getTime = 1711929600000, getMonth = 3\<rparr>"
  by code_simp+

lemma misdated_months:
  "getMonthFromDate engine En ''03/01/2024'' = ''March''"
  "getMonthFromDate engine En ''02/99/2024'' = ''February''"
  "getMonthFromDate engine En ''04/01/2024'' = ''April''"
  by code_simp+

lemma misdated_run:
  "forEach (processRow engine) (0, 0, []) misdatedRows =
     Inr (Num 9, 0, [(''03/01/2024'', (Num 3, 0)), (''02/99/2024'', (Num 3, 0)),
                     (''04/01/2024'', (Num 3, 0))])"
  by (simp add: misdatedRows_def processRow_def row_eval engine_fields example_profits
      example_doubles unsorted_doubles zero_jsnum_def Let_def)

lemma misdated_aggregation:
  "calculateTotals engine En misdatedRows ''sales.csv'' = Inr misdatedResult"
  using misdated_run
  by (simp add: calculateTotals_def misdatedResult_def toDailyProfit_def
      month_eval engine_fields dateTime_def misdated_dates misdated_months example_doubles
      zero_jsnum_def)

text \<open>
  The example of the specification gives February before January.
\<close>

theorem months_distinct_and_most_recent_first_witness:
  "calculateTotals engine En exampleRows ''sales.csv'' = Inr exampleResult \<and>
   map (\<lambda>d. dateTime engine (date d)) (dailyData (salesData exampleResult)) =
     [Some 1704412800000, Some 1706745600000] \<and>
   availableMonths exampleResult = [''February'', ''January''] \<and>
   distinct (availableMonths exampleResult) \<and>
   sorted_wrt (\<lambda>a b. mostRecent engine En (dailyData (salesData exampleResult)) b
                      \<le> mostRecent engine En (dailyData (salesData exampleResult)) a)
     (availableMonths exampleResult) \<and>
   mostRecent engine En (dailyData (salesData exampleResult)) ''February'' = 1706745600000 \<and>
   mostRecent engine En (dailyData (salesData exampleResult)) ''January'' = 1704412800000"
proof -
  have times: "map (\<lambda>d. dateTime engine (date d)) (dailyData (salesData exampleResult)) =
     [Some 1704412800000, Some 1706745600000]"
    by (simp add: exampleResult_def dateTime_def engine_fields example_dates)
  then have valid: "\<forall>d \<in> set (dailyData (salesData exampleResult)).
      getMonthFromDate engine En (date d) \<noteq> [] \<longrightarrow> dateTime engine (date d) \<noteq> None"
    by (simp add: exampleResult_def)
  have "distinct (availableMonths exampleResult) \<and>
        sorted_wrt (\<lambda>a b. mostRecent engine En (dailyData (salesData exampleResult)) b
                      \<le> mostRecent engine En (dailyData (salesData exampleResult)) a)
          (availableMonths exampleResult)"
    using months_distinct_and_most_recent_first [OF example_aggregation] valid by blast
  moreover have "availableMonths exampleResult = [''February'', ''January'']"
    by (simp add: exampleResult_def)
  moreover have "mostRecent engine En (dailyData (salesData exampleResult)) ''February'' = 1706745600000"
    "mostRecent engine En (dailyData (salesData exampleResult)) ''January'' = 1704412800000"
    by (simp_all add: mostRecent_def exampleResult_def example_months dateTime_def engine_fields
        example_dates)
  ultimately show ?thesis
    using example_aggregation times by blast
qed

text \<open>
  Claim C6 as stated fails when a day with a month label has a date the engine does not
  read: \<open>02/99/2024\<close> has the label February and no time, the comparator of the
  months is NaN against February, and April, the month of the latest day, stays last.
\<close>

theorem months_unreadable_date_counterexample:
  "calculateTotals engine En misdatedRows ''sales.csv'' = Inr misdatedResult \<and>
   availableMonths misdatedResult = [''March'', ''February'', ''April''] \<and>
   map (\<lambda>d. (getMonthFromDate engine En (date d), dateTime engine (date d)))
     (dailyData (salesData misdatedResult)) =
     [(''March'', Some 1709251200000), (''February'', None), (''April'', Some 1711929600000)]"
  using misdated_aggregation
  by (simp add: misdatedResult_def dateTime_def engine_fields misdated_dates misdated_months)

section \<open>Months without a label, and the filters\<close>

lemma getMonthFromDate_without_month:
  "slashDateWithoutMonth s \<Longrightarrow> getMonthFromDate h language s = []"
  by (auto simp: slashDateWithoutMonth_def getMonthFromDate_def Let_def split: option.splits)

lemma monthLabels_filter:
  "monthLabels h language (filter (\<lambda>d. \<not> slashDateWithoutMonth (date d)) days) =
   monthLabels h language days"
  using getMonthFromDate_without_month [of _ h language]
  by (auto simp: monthLabels_def)

lemma getMonthFromDate_name:
  "getMonthFromDate h language s = [] \<or> getMonthFromDate h language s \<in> set (monthNames language)"
  by (auto simp: getMonthFromDate_def monthNameAt_def monthNames_def Let_def
      split: option.splits Language.splits)

lemma monthNames_not_ALL: "''ALL'' \<notin> set (monthNames language)"
  by (cases language) (simp_all add: monthNames_def)

lemma outOfRange_aggregation:
  "calculateTotals engine En outOfRangeRows ''sales.csv'' = Inr outOfRangeResult"
proof -
  have d: "usDate ''13/01/2024'' = None"
    by code_simp
  have m: "getMonthFromDate engine En ''13/01/2024'' = []"
    by code_simp
  have run: "forEach (processRow engine) (0, 0, []) outOfRangeRows =
     Inr (Num 6, 0, [(''13/01/2024'', (Num 3, 0)), (''01/05/2024'', (Num 3, 0))])"
    by (simp add: outOfRangeRows_def processRow_def row_eval engine_fields example_profits
        example_doubles unsorted_doubles zero_jsnum_def Let_def)
  show ?thesis
    using run
    by (simp add: calculateTotals_def outOfRangeResult_def toDailyProfit_def
        month_eval engine_fields dateTime_def example_dates example_months d m example_doubles
        zero_jsnum_def)
qed

lemma outOfRange_strict:
  "(\<Union>m \<in> set (getAllUniqueMonths engine En (dailyData (salesData outOfRangeResult))).
      set (getFilteredDailyData engine En (dailyData (salesData outOfRangeResult)) m))
   \<subset> set (dailyData (salesData outOfRangeResult))"
proof -
  have m: "getMonthFromDate engine En ''13/01/2024'' = []"
    by code_simp
  have "availableMonths outOfRangeResult =
        getAllUniqueMonths engine En (dailyData (salesData outOfRangeResult))"
    using calculateTotals_run [OF outOfRange_aggregation] by blast
  then have "getAllUniqueMonths engine En (dailyData (salesData outOfRangeResult)) = [''January'']"
    by (simp add: outOfRangeResult_def)
  then show ?thesis
    by (auto simp: getFilteredDailyData_def outOfRangeResult_def m example_months)
qed

text \<open>
  Claim C10. A date string with at least three parts between slashes whose first part
  is not read as an integer from 1 to 12 (such as \<open>2024/01/05\<close> or
  \<open>13/01/2024\<close>) has the empty month label on every engine: the \<open>Date\<close> of the
  engine is not consulted. A day with such a date is in no filtered series of an
  available month, nor of any other month label, and is in the series of the filter
  \<open>ALL\<close>; the available months are the labels of the other days. So the filtered
  series of all available months together can miss days of the full series; the
  table below is an instance.
\<close>

theorem slash_date_without_month_has_no_label:
  fixes h :: "'n::{plus,zero} host"
  shows "(slashDateWithoutMonth s \<longrightarrow> getMonthFromDate h language s = []) \<and>
         (\<forall>d \<in> set days. slashDateWithoutMonth (date d) \<longrightarrow>
            (\<forall>m \<in> set (getAllUniqueMonths h language days).
               d \<notin> set (getFilteredDailyData h language days m)) \<and>
            (\<forall>m. m \<noteq> [] \<and> m \<noteq> ''ALL'' \<longrightarrow> d \<notin> set (getFilteredDailyData h language days m)) \<and>
            d \<in> set (getFilteredDailyData h language days ''ALL'')) \<and>
         set (getAllUniqueMonths h language days) =
           monthLabels h language (filter (\<lambda>d. \<not> slashDateWithoutMonth (date d)) days) \<and>
         (\<exists>days' :: jsnum DailyProfit list.
            (\<Union>m \<in> set (getAllUniqueMonths engine En days').
                set (getFilteredDailyData engine En days' m)) \<subset> set days')"
proof -
  have labels: "set (getAllUniqueMonths h language days) = monthLabels h language days"
    using getAllUniqueMonths_set by blast
  have names: "m \<noteq> [] \<and> m \<noteq> ''ALL''"
    if mem: "m \<in> set (getAllUniqueMonths h language days)" for m
  proof -
    have ne: "m \<noteq> []" and ex: "\<exists>d \<in> set days. getMonthFromDate h language (date d) = m"
      using mem labels by (simp_all add: monthLabels_def)
    then obtain d where "d \<in> set days" "getMonthFromDate h language (date d) = m"
      by blast
    then have "m \<in> set (monthNames language)"
      using getMonthFromDate_name [of h language "date d"] ne by simp
    then show ?thesis
      using monthNames_not_ALL [of language] \<open>m \<noteq> []\<close> by auto
  qed
  have out: "d \<notin> set (getFilteredDailyData h language days m)"
    if "slashDateWithoutMonth (date d)" "m \<noteq> [] \<and> m \<noteq> ''ALL''" for d m
    using that getMonthFromDate_without_month [of "date d" h language]
    by (auto simp: getFilteredDailyData_def)
  have all: "getFilteredDailyData h language days ''ALL'' = days"
    by (simp add: getFilteredDailyData_def)
  show ?thesis
  proof (intro conjI ballI impI allI)
    assume "slashDateWithoutMonth s"
    then show "getMonthFromDate h language s = []"
      by (rule getMonthFromDate_without_month)
  next
    fix d :: "'n DailyProfit" and m
    assume "slashDateWithoutMonth (date d)" "m \<in> set (getAllUniqueMonths h language days)"
    then show "d \<notin> set (getFilteredDailyData h language days m)"
      using names [of m] out [of d m] by simp
  next
    fix d :: "'n DailyProfit" and m
    assume "slashDateWithoutMonth (date d)" "m \<noteq> [] \<and> m \<noteq> ''ALL''"
    then show "d \<notin> set (getFilteredDailyData h language days m)"
      by (rule out)
  next
    fix d
    assume "d \<in> set days"
    then show "d \<in> set (getFilteredDailyData h language days ''ALL'')"
      by (simp add: all)
  next
    show "set (getAllUniqueMonths h language days) =
           monthLabels h language (filter (\<lambda>d. \<not> slashDateWithoutMonth (date d)) days)"
      by (simp only: labels monthLabels_filter)
  next
    show "\<exists>days' :: jsnum DailyProfit list.
            (\<Union>m \<in> set (getAllUniqueMonths engine En days').
                set (getFilteredDailyData engine En days' m)) \<subset> set days'"
      using outOfRange_strict by (rule exI)
  qed
qed

lemma foldl_plus_sum_list:
  fixes a :: "'a::monoid_add"
  shows "foldl (+) a xs = a + sum_list xs"
  by (induction xs arbitrary: a) (simp_all add: add.assoc)

lemma filtered_totals_exact:
  fixes h :: "'n::comm_monoid_add host"
  assumes "\<forall>d \<in> set days. total' d = retail d + club d"
  shows "fst (getFilteredTotals h language days month) + snd (getFilteredTotals h language days month)
         = sum_list (map total' (getFilteredDailyData h language days month))"
proof -
  let ?F = "getFilteredDailyData h language days month"
  have sub: "set ?F \<subseteq> set days"
    by (auto simp: getFilteredDailyData_def)
  have l: "foldl (+) 0 (map g ?F) = sum_list (map g ?F)" for g :: "'n DailyProfit \<Rightarrow> 'n"
    using foldl_plus_sum_list [of 0 "map g ?F"] by simp
  have "sum_list (map total' ?F) = sum_list (map (\<lambda>d. retail d + club d) ?F)"
    using assms sub by (intro arg_cong [where f = sum_list] map_cong) auto
  also have "\<dots> = sum_list (map retail ?F) + sum_list (map club ?F)"
    by (simp add: sum_list_addf)
  finally show ?thesis
    using l [of retail] l [of club] by (simp add: getFilteredTotals_def Let_def foldl_map)
qed

section \<open>A day without a month label\<close>

text \<open>
  The date \<open>2024/01/05\<close>, and the day \<open>13/01/2024\<close> of a table whose other
  day is in January.
\<close>

theorem slash_date_without_month_has_no_label_witness:
  "slashDateWithoutMonth ''2024/01/05'' \<and> getMonthFromDate engine En ''2024/01/05'' = [] \<and>
   outOfRangeDay \<in> set (dailyData (salesData outOfRangeResult)) \<and>
   slashDateWithoutMonth (date outOfRangeDay) \<and>
   getAllUniqueMonths engine En (dailyData (salesData outOfRangeResult)) = [''January''] \<and>
   outOfRangeDay \<notin> set (getFilteredDailyData engine En (dailyData (salesData outOfRangeResult))
                              ''January'') \<and>
   outOfRangeDay \<in> set (getFilteredDailyData engine En (dailyData (salesData outOfRangeResult))
                            ''ALL'')"
proof -
  let ?days = "dailyData (salesData outOfRangeResult)"
  have a: "slashDateWithoutMonth ''2024/01/05''"
    by code_simp
  have b: "slashDateWithoutMonth (date outOfRangeDay)"
    unfolding outOfRangeDay_def by code_simp
  have c: "outOfRangeDay \<in> set ?days"
    by (simp add: outOfRangeDay_def outOfRangeResult_def)
  have "availableMonths outOfRangeResult = getAllUniqueMonths engine En ?days"
    using calculateTotals_run [OF outOfRange_aggregation] by blast
  then have d: "getAllUniqueMonths engine En ?days = [''January'']"
    by (simp add: outOfRangeResult_def)
  note t = slash_date_without_month_has_no_label [of "''2024/01/05''" engine En ?days]
  have "getMonthFromDate engine En ''2024/01/05'' = []"
    using t a by blast
  moreover have "outOfRangeDay \<notin> set (getFilteredDailyData engine En ?days ''January'')"
    using t b c d by simp
  moreover have "outOfRangeDay \<in> set (getFilteredDailyData engine En ?days ''ALL'')"
    using t b c by blast
  ultimately show ?thesis
    using a b c d by blast
qed

section \<open>The filters called in sequence\<close>

lemma heap_kept_refl: "heap_kept hp hp"
  by (simp add: heap_kept_def)

lemma heap_kept_trans: "heap_kept hp hp1 \<Longrightarrow> heap_kept hp1 hp2 \<Longrightarrow> heap_kept hp hp2"
  by (simp add: heap_kept_def)

lemma newArray_heap:
  assumes "heap_ok hp" and "newArray hp xs = (r, hp1)"
  shows "heap_ok hp1 \<and> heap_kept hp hp1 \<and> arrays hp1 r = Some xs"
proof -
  have r: "r = nextRef hp"
    and hp1: "hp1 = hp\<lparr>arrays := (arrays hp)(nextRef hp \<mapsto> xs), nextRef := Suc (nextRef hp)\<rparr>"
    using assms(2) by (auto simp: newArray_def)
  have "nextRef hp \<notin> dom (arrays hp)"
    using assms(1) by (auto simp: heap_ok_def)
  then show ?thesis
    using assms(1) by (auto simp: r hp1 heap_ok_def heap_kept_def less_Suc_eq)
qed

lemma getFilteredDailyData_ref_heap:
  assumes "heap_ok hp" and "arrays hp a = Some days"
  shows "\<exists>r hp1. getFilteredDailyData_ref h language hp a m = Inr (r, hp1) \<and>
           heap_ok hp1 \<and> heap_kept hp hp1 \<and>
           arrays hp1 r = Some (getFilteredDailyData h language days m)"
proof (cases "m = ''ALL''")
  case True
  then show ?thesis
    using assms by (simp add: getFilteredDailyData_ref_def getFilteredDailyData_def heap_kept_refl)
next
  case False
  obtain r hp1 where n: "newArray hp (filter (\<lambda>day. getMonthFromDate h language (date day) = m) days)
      = (r, hp1)"
    by (cases "newArray hp (filter (\<lambda>day. getMonthFromDate h language (date day) = m) days)")
  show ?thesis
    using False assms(2) n newArray_heap [OF assms(1) n]
    by (simp add: getFilteredDailyData_ref_def getFilteredDailyData_def)
qed

lemma getFilteredTotals_ref_heap:
  fixes h :: "'n::{plus,zero} host"
  assumes "heap_ok hp" and "arrays hp a = Some days"
  shows "\<exists>rt ct hp1. getFilteredTotals_ref h language hp a m = Inr ((rt, ct), hp1) \<and>
           heap_ok hp1 \<and> heap_kept hp hp1 \<and>
           rt = foldl (+) 0 (map retail (getFilteredDailyData h language days m)) \<and>
           ct = foldl (+) 0 (map club (getFilteredDailyData h language days m)) \<and>
           (rt, ct) = getFilteredTotals h language days m"
proof -
  obtain r hp1 where f: "getFilteredDailyData_ref h language hp a m = Inr (r, hp1)"
    "heap_ok hp1" "heap_kept hp hp1"
    "arrays hp1 r = Some (getFilteredDailyData h language days m)"
    using getFilteredDailyData_ref_heap [OF assms, of h language m] by blast
  then show ?thesis
    by (simp add: getFilteredTotals_ref_def getFilteredTotals_def Let_def foldl_map)
qed

lemma answers_call_kept:
  "heap_kept hp hp' \<Longrightarrow> answers_call h language days hp c ans \<Longrightarrow> answers_call h language days hp' c ans"
  by (auto simp: answers_call_def heap_kept_def split: call.splits answer.splits)

lemma runCalls_heap:
  fixes h :: "'n::{plus,zero} host"
  assumes "heap_ok hp" and "arrays hp a = Some days"
  shows "\<exists>answers hp'. runCalls h language hp a calls = Inr (answers, hp') \<and>
           heap_ok hp' \<and> heap_kept hp hp' \<and>
           list_all2 (answers_call h language days hp') calls answers"
  using assms
proof (induction calls arbitrary: hp)
  case Nil
  then show ?case by (simp add: heap_kept_refl)
next
  case (Cons c cs)
  show ?case
  proof (cases c)
    case (DailyDataCall m)
    obtain r hp1 where f: "getFilteredDailyData_ref h language hp a m = Inr (r, hp1)"
      "heap_ok hp1" "heap_kept hp hp1"
      "arrays hp1 r = Some (getFilteredDailyData h language days m)"
      using getFilteredDailyData_ref_heap [OF Cons.prems, of h language m] by blast
    have a1: "arrays hp1 a = Some days"
      using f(3) Cons.prems(2) by (simp add: heap_kept_def)
    obtain answers hp2 where rest: "runCalls h language hp1 a cs = Inr (answers, hp2)"
      "heap_ok hp2" "heap_kept hp1 hp2" "list_all2 (answers_call h language days hp2) cs answers"
      using Cons.IH [OF f(2) a1] by blast
    have "answers_call h language days hp2 c (DaysAnswer r)"
      using f(4) rest(3) by (simp add: answers_call_def DailyDataCall heap_kept_def)
    then show ?thesis
      using f(1,3) rest heap_kept_trans [OF f(3) rest(3)] by (simp add: DailyDataCall)
  next
    case (TotalsCall m)
    obtain rt ct hp1 where f: "getFilteredTotals_ref h language hp a m = Inr ((rt, ct), hp1)"
      "heap_ok hp1" "heap_kept hp hp1"
      "rt = foldl (+) 0 (map retail (getFilteredDailyData h language days m))"
      "ct = foldl (+) 0 (map club (getFilteredDailyData h language days m))"
      "(rt, ct) = getFilteredTotals h language days m"
      using getFilteredTotals_ref_heap [OF Cons.prems, of h language m] by blast
    have a1: "arrays hp1 a = Some days"
      using f(3) Cons.prems(2) by (simp add: heap_kept_def)
    obtain answers hp2 where rest: "runCalls h language hp1 a cs = Inr (answers, hp2)"
      "heap_ok hp2" "heap_kept hp1 hp2" "list_all2 (answers_call h language days hp2) cs answers"
      using Cons.IH [OF f(2) a1] by blast
    have "answers_call h language days hp2 c (TotalsAnswer rt ct)"
      using f(4,5,6) by (simp add: answers_call_def TotalsCall)
    then show ?thesis
      using f(1) rest heap_kept_trans [OF f(3) rest(3)] by (simp add: TotalsCall)
  qed
qed

text \<open>
  Claim C2. Let \<open>dailyData\<close> be an array of a heap, and let the two filter functions be
  called on it in any sequence, with any months or \<open>ALL\<close>. Every call returns; no array
  that was in the heap is changed, \<open>dailyData\<close> among them; each call of
  \<open>getFilteredDailyData\<close> answers with an array holding the days selected for its month,
  and each call of \<open>getFilteredTotals\<close> with the sums, from 0 and in the order of the
  series, of the retail and of the club fields of those days, whatever was called
  before. So the totals for a month are the sums over the array that a call for the
  daily data of the same month returns, wherever the two calls stand in the sequence.
\<close>

theorem filters_are_pure_and_agree:
  fixes h :: "'n::{plus,zero} host"
  assumes "heap_ok hp" and "arrays hp dailyData0 = Some days"
  shows "\<exists>answers hp'.
           runCalls h language hp dailyData0 calls = Inr (answers, hp') \<and>
           heap_kept hp hp' \<and> arrays hp' dailyData0 = Some days \<and>
           list_all2 (answers_call h language days hp') calls answers \<and>
           (\<forall>i j m r rt ct.
              i < length calls \<and> j < length calls \<and>
              calls ! i = DailyDataCall m \<and> answers ! i = DaysAnswer r \<and>
              calls ! j = TotalsCall m \<and> answers ! j = TotalsAnswer rt ct \<longrightarrow>
              (\<exists>selected. arrays hp' r = Some selected \<and>
                 rt = foldl (+) 0 (map retail selected) \<and>
                 ct = foldl (+) 0 (map club selected)))"
proof -
  obtain answers hp' where run: "runCalls h language hp dailyData0 calls = Inr (answers, hp')"
    "heap_kept hp hp'" "list_all2 (answers_call h language days hp') calls answers"
    using runCalls_heap [OF assms, of h language calls] by blast
  have kept: "arrays hp' dailyData0 = Some days"
    using run(2) assms(2) by (simp add: heap_kept_def)
  have agree: "\<exists>selected. arrays hp' r = Some selected \<and>
                 rt = foldl (+) 0 (map retail selected) \<and> ct = foldl (+) 0 (map club selected)"
    if "i < length calls" "j < length calls" "calls ! i = DailyDataCall m" "answers ! i = DaysAnswer r"
      "calls ! j = TotalsCall m" "answers ! j = TotalsAnswer rt ct" for i j m r rt ct
  proof -
    have "answers_call h language days hp' (DailyDataCall m) (DaysAnswer r)"
      using list_all2_nthD [OF run(3) that(1)] that(3,4) by simp
    moreover have "answers_call h language days hp' (TotalsCall m) (TotalsAnswer rt ct)"
      using list_all2_nthD [OF run(3) that(2)] that(5,6) by simp
    ultimately show ?thesis
      by (simp add: answers_call_def)
  qed
  show ?thesis
    using run kept agree by blast
qed

section \<open>Four calls on the example\<close>

lemma exampleCalls_run:
  "\<exists>hp'. runCalls engine En exampleHeap 0 exampleCalls = Inr (exampleAnswers, hp') \<and>
         arrays hp' 2 = Some [dailyData (salesData exampleResult) ! 0]"
  by (simp add: exampleCalls_def exampleAnswers_def exampleHeap_def exampleResult_def
      getFilteredTotals_ref_def getFilteredDailyData_ref_def newArray_def example_months
      example_doubles zero_jsnum_def)

text \<open>
  The daily series of the example in a heap, and four calls: the totals of January
  twice, with the daily data of January and the totals of \<open>ALL\<close> between them.
\<close>

theorem filters_are_pure_and_agree_witness:
  "heap_ok exampleHeap \<and>
   arrays exampleHeap 0 = Some (dailyData (salesData exampleResult)) \<and>
   (\<exists>hp'. runCalls engine En exampleHeap 0 exampleCalls = Inr (exampleAnswers, hp') \<and>
          arrays hp' 0 = Some (dailyData (salesData exampleResult)) \<and>
          arrays hp' 2 = Some [dailyData (salesData exampleResult) ! 0] \<and>
          list_all2 (answers_call engine En (dailyData (salesData exampleResult)) hp')
            exampleCalls exampleAnswers)"
proof -
  have ok: "heap_ok exampleHeap"
    by (simp add: heap_ok_def exampleHeap_def)
  have a: "arrays exampleHeap 0 = Some (dailyData (salesData exampleResult))"
    by (simp add: exampleHeap_def)
  obtain answers hp' where t: "runCalls engine En exampleHeap 0 exampleCalls = Inr (answers, hp')"
    "arrays hp' 0 = Some (dailyData (salesData exampleResult))"
    "list_all2 (answers_call engine En (dailyData (salesData exampleResult)) hp') exampleCalls answers"
    using filters_are_pure_and_agree [OF ok a, of engine En exampleCalls] by blast
  obtain hp2 where e: "runCalls engine En exampleHeap 0 exampleCalls = Inr (exampleAnswers, hp2)"
    "arrays hp2 2 = Some [dailyData (salesData exampleResult) ! 0]"
    using exampleCalls_run by blast
  have "answers = exampleAnswers" "hp' = hp2"
    using t(1) e(1) by simp_all
  then show ?thesis
    using ok a t e by blast
qed

section \<open>The totals and the daily series\<close>

lemma doubles_exactWhenRepresentable: "exactWhenRepresentable isFiniteDouble valueOf"
proof -
  have z: "toDouble 0 = Num 0"
    by (simp add: toDouble_def)
  have inj: "a = c" if "isFiniteDouble a" "isFiniteDouble c" "valueOf a = valueOf c" for a c
    using that by (cases a; cases c) (simp_all add: isFiniteDouble_def valueOf_def)
  have add: "a + b = c"
    if "isFiniteDouble a" "isFiniteDouble b" "isFiniteDouble c" "valueOf c = valueOf a + valueOf b"
    for a b c
    using that by (cases a; cases b; cases c) (simp_all add: isFiniteDouble_def valueOf_def)
  show ?thesis
    unfolding exactWhenRepresentable_def
    using z inj add by (auto simp: isFiniteDouble_def valueOf_def zero_jsnum_def)
qed

lemma exact_monoid: "exactWhenRepresentable (\<lambda>_. True) (\<lambda>a :: 'a::comm_monoid_add. a)"
  by (simp add: exactWhenRepresentable_def)

lemma add_exact:
  fixes val :: "'n::{plus,zero} \<Rightarrow> 'm::comm_monoid_add"
  assumes "exactWhenRepresentable ok val"
    and "\<And>ys. subseq ys A \<Longrightarrow> \<exists>c. ok c \<and> val c = sum_list ys"
    and "ok a" and "ok b" and "subseq zs A" and "val a + val b = sum_list zs"
  shows "ok (a + b) \<and> val (a + b) = sum_list zs"
proof -
  obtain c where c: "ok c" "val c = sum_list zs"
    using assms(2) [OF assms(5)] by blast
  then have "a + b = c"
    using assms(1,3,4,6) unfolding exactWhenRepresentable_def by metis
  then show ?thesis
    using c by simp
qed

lemma subseq_filtered_prefix:
  assumes "\<And>x. P x \<Longrightarrow> K x"
  shows "subseq (map g (filter P pre)) (map g (filter K (pre @ rest)))"
proof -
  have "filter P pre = filter P (filter K pre)"
    using assms by (auto intro: filter_cong)
  then have "subseq (filter P pre) (filter K pre)"
    by (metis subseq_filter_left)
  moreover have "subseq (filter K pre) (filter K (pre @ rest))"
    by (simp add: prefix_imp_subseq)
  ultimately have "subseq (filter P pre) (filter K (pre @ rest))"
    using subseq_order.order_trans by blast
  then show ?thesis
    by (rule subseq_map)
qed

lemma sumWhere_snoc:
  "sumWhere g P (xs @ [x]) = sumWhere g P xs + (if P x then g x else 0)"
  by (simp add: sumWhere_def)

lemma sumWhere_disjoint:
  assumes "\<And>x. x \<in> set xs \<Longrightarrow> \<not> (P x \<and> Q x)"
  shows "sumWhere g P xs + sumWhere g Q xs = sumWhere g (\<lambda>x. P x \<or> Q x) xs"
  using assms
proof (induction xs)
  case Nil
  show ?case by (simp add: sumWhere_def)
next
  case (Cons x xs)
  then have "sumWhere g P xs + sumWhere g Q xs = sumWhere g (\<lambda>x. P x \<or> Q x) xs"
    by simp
  then show ?case
    using Cons.prems [of x] by (auto simp: sumWhere_def ac_simps)
qed

lemma sumWhere_cong:
  "(\<And>x. x \<in> set xs \<Longrightarrow> P x = Q x) \<Longrightarrow> sumWhere g P xs = sumWhere g Q xs"
  unfolding sumWhere_def by (metis (mono_tags, lifting) filter_cong)

lemma sumWhere_none: "(\<And>x. x \<in> set xs \<Longrightarrow> \<not> P x) \<Longrightarrow> sumWhere g P xs = 0"
  by (simp add: sumWhere_def)

lemma channel_step:
  fixes val :: "'n::{plus,zero} \<Rightarrow> 'm::comm_monoid_add"
  assumes "exactWhenRepresentable ok val"
    and "\<And>ys. subseq ys (map (\<lambda>x. val (amt x)) (filter K (pre @ x # rest)))
            \<Longrightarrow> \<exists>c. ok c \<and> val c = sum_list ys"
    and "\<And>x. P x \<Longrightarrow> K x"
    and "ok v" and "val v = sumWhere (\<lambda>x. val (amt x)) P pre"
    and "P x \<Longrightarrow> ok (amt x)"
  shows "ok (if P x then v + amt x else v) \<and>
         val (if P x then v + amt x else v) = sumWhere (\<lambda>x. val (amt x)) P (pre @ [x])"
proof (cases "P x")
  case False
  then show ?thesis
    using assms(4,5) by (simp add: sumWhere_snoc)
next
  case True
  have s: "subseq (map (\<lambda>x. val (amt x)) (filter P (pre @ [x])))
             (map (\<lambda>x. val (amt x)) (filter K ((pre @ [x]) @ rest)))"
    using assms(3) by (rule subseq_filtered_prefix)
  have v: "val v + val (amt x) = sum_list (map (\<lambda>x. val (amt x)) (filter P (pre @ [x])))"
    using True assms(5) by (simp add: sumWhere_def)
  have "ok (v + amt x) \<and> val (v + amt x) = sum_list (map (\<lambda>x. val (amt x)) (filter P (pre @ [x])))"
    by (rule add_exact [OF assms(1) assms(2) assms(4) assms(6) [OF True] _ v]) (use s in simp_all)
  then show ?thesis
    using True by (simp add: sumWhere_def)
qed

lemma set_update_distinct:
  "distinct (map fst m) \<Longrightarrow>
   set (AList.update k v m) = insert (k, v) {e \<in> set m. fst e \<noteq> k}"
  by (induction m) (auto simp: rev_image_eqI)

lemma forEach_prefix_invariant:
  assumes "forEach f s xs = Inr s'" and "P [] s"
    and "\<And>pre x rest s s1. xs = pre @ x # rest \<Longrightarrow> P pre s \<Longrightarrow> f s x = Inr s1 \<Longrightarrow> P (pre @ [x]) s1"
  shows "P xs s'"
  using assms(1,3)
proof (induction xs arbitrary: s' rule: rev_induct)
  case Nil
  then show ?case using assms(2) by simp
next
  case (snoc x xs)
  obtain s1 where s1: "forEach f s xs = Inr s1" and last: "f s1 x = Inr s'"
    using snoc.prems(1) by (auto simp: forEach_append split: sum.splits)
  have "P xs s1"
  proof (rule snoc.IH [OF s1])
    fix pre y rest t t1
    assume "xs = pre @ y # rest" and "P pre t" and "f t y = Inr t1"
    then show "P (pre @ [y]) t1"
      using snoc.prems(2) [of pre y "rest @ [x]" t t1] by simp
  qed
  then show ?case
    using snoc.prems(2) [of xs x "[]" s1 s'] last by simp
qed

lemma processRow_exact:
  fixes h :: "'n::{plus,zero} host" and val :: "'n \<Rightarrow> 'm::comm_monoid_add"
  assumes E: "exactWhenRepresentable ok val"
    and H: "\<And>ys. subseq ys (map val (amounts h (pre @ x # rest))) \<Longrightarrow> \<exists>c. ok c \<and> val c = sum_list ys"
    and D: "retailRow h x \<or> clubRow h x \<Longrightarrow> hasDate x"
    and A: "retailRow h x \<or> clubRow h x \<Longrightarrow> ok (amountOf h x)"
    and I: "exactLocals ok val h pre (rt, ct, dm)"
    and S: "processRow h (rt, ct, dm) x = Inr (rt', ct', dm')"
  shows "exactLocals ok val h (pre @ [x]) (rt', ct', dm')"
proof -
  let ?g = "\<lambda>x. val (amountOf h x)"
  let ?K = "\<lambda>x. retailRow h x \<or> clubRow h x"
  let ?Pr = "\<lambda>d x. retailRow h x \<and> dateCreated x = Some d"
  let ?Pc = "\<lambda>d x. clubRow h x \<and> dateCreated x = Some d"
  have H': "\<exists>c. ok c \<and> val c = sum_list ys"
    if "subseq ys (map ?g (filter ?K (pre @ x # rest)))" for ys
    using H [of ys] that by (simp add: amounts_def o_def)
  have step: "ok (if P x then v + amountOf h x else v) \<and>
              val (if P x then v + amountOf h x else v) = sumWhere ?g P (pre @ [x])"
    if "\<And>y. P y \<Longrightarrow> ?K y" and "ok v" and "val v = sumWhere ?g P pre" for P v
  proof (rule channel_step [where K = ?K and rest = rest, OF E _ _ that(2,3)])
    show "\<And>ys. subseq ys (map ?g (filter ?K (pre @ x # rest))) \<Longrightarrow> \<exists>c. ok c \<and> val c = sum_list ys"
      using H' by blast
    show "\<And>y. P y \<Longrightarrow> ?K y" using that(1) .
    show "P x \<Longrightarrow> ok (amountOf h x)" using that(1) A by blast
  qed
  have Irt: "ok rt" "val rt = sumWhere ?g (retailRow h) pre"
    and Ict: "ok ct" "val ct = sumWhere ?g (clubRow h) pre"
    and Idist: "distinct (map fst dm)"
    using I by (simp_all add: exactLocals_def)
  have Ibucket: "ok r \<and> val r = sumWhere ?g (?Pr d) pre \<and> ok c \<and> val c = sumWhere ?g (?Pc d) pre"
    if "(d, r, c) \<in> set dm" for d r c
    using I that by (auto simp: exactLocals_def)
  have Icover: "\<exists>d. dateCreated y = Some d \<and> d \<in> fst ` set dm"
    if "y \<in> set pre" "?K y" for y
    using I that unfolding exactLocals_def by blast
  have keep: "ok v \<and> val v = sumWhere ?g P (pre @ [x])"
    if "\<And>y. P y \<Longrightarrow> ?K y" and "ok v" and "val v = sumWhere ?g P pre" and "\<not> P x" for P v
    using step [OF that(1,2,3)] that(4) by simp
  show ?thesis
  proof (cases "qualifies h x")
    case False
    then have same: "rt' = rt" "ct' = ct" "dm' = dm"
      using S processRow_not_qualifying [of h x "(rt, ct, dm)"] by simp_all
    have nK: "\<not> retailRow h x" "\<not> clubRow h x"
      using False by (simp_all add: retailRow_def clubRow_def)
    have "ok rt \<and> val rt = sumWhere ?g (retailRow h) (pre @ [x])"
      using keep [of "retailRow h" rt] Irt nK by blast
    moreover have "ok ct \<and> val ct = sumWhere ?g (clubRow h) (pre @ [x])"
      using keep [of "clubRow h" ct] Ict nK by blast
    moreover have "ok r \<and> val r = sumWhere ?g (?Pr d) (pre @ [x]) \<and>
                   ok c \<and> val c = sumWhere ?g (?Pc d) (pre @ [x])"
      if "(d, r, c) \<in> set dm" for d r c
      using keep [of "?Pr d" r] keep [of "?Pc d" c] Ibucket [OF that] nK by blast
    moreover have "\<exists>d. dateCreated y = Some d \<and> d \<in> fst ` set dm"
      if "y \<in> set (pre @ [x])" "?K y" for y
      using Icover [of y] that nK by auto
    ultimately show ?thesis
      unfolding exactLocals_def same using Idist by (simp del: set_append) blast
  next
    case True
    then obtain t ps where t: "receiptType x = Some t" and ps: "profitString x = Some ps"
      by (auto simp: qualifies_def split: option.splits)
    have amt: "amountOf h x = profit h ps"
      using ps by (simp add: amountOf_def)
    have rr: "retailRow h x \<longleftrightarrow> isRetail t" and cr: "clubRow h x \<longleftrightarrow> \<not> isRetail t \<and> isClub t"
      using True t by (simp_all add: retailRow_def clubRow_def)
    have run: "rt' = (if retailRow h x then rt + amountOf h x else rt)"
      "ct' = (if clubRow h x then ct + amountOf h x else ct)"
      "dm' = (case dateCreated x of None \<Rightarrow> dm
              | Some d \<Rightarrow> if d = [] then dm
                          else AList.update d (addToDay (profit h ps) t (bucketOf dm d)) dm)"
      using S processRow_qualifying [OF True t ps, of rt ct dm] amt rr cr by auto
    have Rt: "ok rt' \<and> val rt' = sumWhere ?g (retailRow h) (pre @ [x])"
      unfolding run using step [of "retailRow h" rt] Irt by blast
    have Ct: "ok ct' \<and> val ct' = sumWhere ?g (clubRow h) (pre @ [x])"
      unfolding run using step [of "clubRow h" ct] Ict by blast
    show ?thesis
    proof (cases "hasDate x")
      case False
      then have dm: "dm' = dm"
        using run(3) by (auto simp: hasDate_def split: option.splits)
      have nK: "\<not> retailRow h x" "\<not> clubRow h x"
        using False D by blast+
      have "ok r \<and> val r = sumWhere ?g (?Pr d) (pre @ [x]) \<and>
            ok c \<and> val c = sumWhere ?g (?Pc d) (pre @ [x])"
        if "(d, r, c) \<in> set dm" for d r c
        using keep [of "?Pr d" r] keep [of "?Pc d" c] Ibucket [OF that] nK by blast
      moreover have "\<exists>d. dateCreated y = Some d \<and> d \<in> fst ` set dm"
        if "y \<in> set (pre @ [x])" "?K y" for y
        using Icover [of y] that nK by auto
      ultimately show ?thesis
        unfolding exactLocals_def dm using Idist Rt Ct by (simp del: set_append) blast
    next
      case True
      then obtain d where d: "dateCreated x = Some d" "d \<noteq> []"
        by (auto simp: hasDate_def split: option.splits)
      obtain r0 c0 where b: "bucketOf dm d = (r0, c0)"
        by (cases "bucketOf dm d") auto
      have B: "ok r0 \<and> val r0 = sumWhere ?g (?Pr d) pre \<and> ok c0 \<and> val c0 = sumWhere ?g (?Pc d) pre"
      proof (cases "map_of dm d")
        case (Some v)
        then have "(d, r0, c0) \<in> set dm"
          using b by (auto simp: bucketOf_def dest: map_of_SomeD)
        then show ?thesis by (rule Ibucket)
      next
        case None
        then have z: "r0 = 0" "c0 = 0"
          using b by (simp_all add: bucketOf_def)
        have nd: "d \<notin> fst ` set dm"
          using None by (simp add: map_of_eq_None_iff)
        have other: "dateCreated y \<noteq> Some d" if prior: "y \<in> set pre" "?K y" for y
        proof -
          obtain e where "dateCreated y = Some e" "e \<in> fst ` set dm"
            using Icover [OF prior] by blast
          then show ?thesis using nd by auto
        qed
        have "sumWhere ?g (?Pr d) pre = 0"
          by (rule sumWhere_none) (use other in blast)
        moreover have "sumWhere ?g (?Pc d) pre = 0"
          by (rule sumWhere_none) (use other in blast)
        ultimately show ?thesis
          using E z by (simp add: exactWhenRepresentable_def)
      qed
      let ?r1 = "if ?Pr d x then r0 + amountOf h x else r0"
      let ?c1 = "if ?Pc d x then c0 + amountOf h x else c0"
      have new: "addToDay (profit h ps) t (bucketOf dm d) = (?r1, ?c1)"
        using b d rr cr amt by (simp add: addToDay_def)
      have dm: "dm' = AList.update d (?r1, ?c1) dm"
        using run(3) d new by simp
      have N: "ok ?r1 \<and> val ?r1 = sumWhere ?g (?Pr d) (pre @ [x]) \<and>
               ok ?c1 \<and> val ?c1 = sumWhere ?g (?Pc d) (pre @ [x])"
        using step [of "?Pr d" r0] step [of "?Pc d" c0] B by blast
      have entries: "set dm' = insert (d, ?r1, ?c1) {e \<in> set dm. fst e \<noteq> d}"
        unfolding dm using Idist by (rule set_update_distinct)
      have "ok r \<and> val r = sumWhere ?g (?Pr d') (pre @ [x]) \<and>
            ok c \<and> val c = sumWhere ?g (?Pc d') (pre @ [x])"
        if mem: "(d', r, c) \<in> set dm'" for d' r c
      proof (cases "d' = d")
        case True
        then have "r = ?r1" "c = ?c1"
          using mem entries by auto
        then show ?thesis
          using N True by simp
      next
        case False
        then have old: "(d', r, c) \<in> set dm"
          using mem entries by auto
        have "\<not> ?Pr d' x" "\<not> ?Pc d' x"
          using False d by auto
        then show ?thesis
          using keep [of "?Pr d'" r] keep [of "?Pc d'" c] Ibucket [OF old] by blast
      qed
      moreover have "\<exists>e. dateCreated y = Some e \<and> e \<in> fst ` set dm'"
        if row: "y \<in> set (pre @ [x])" "?K y" for y
      proof (cases "y = x")
        case True
        then show ?thesis using d entries by auto
      next
        case False
        then have "y \<in> set pre"
          using row(1) by simp
        then obtain e where e: "dateCreated y = Some e" "e \<in> fst ` set dm"
          using Icover [of y] row(2) by blast
        then have "e \<in> fst ` set dm'"
          unfolding entries by (cases "e = d") force+
        then show ?thesis using e by blast
      qed
      moreover have "distinct (map fst dm')"
        unfolding dm using Idist by (simp add: distinct_update)
      ultimately show ?thesis
        unfolding exactLocals_def using Rt Ct by (simp del: set_append) blast
    qed
  qed
qed

lemma forEach_exact:
  fixes h :: "'n::{plus,zero} host" and val :: "'n \<Rightarrow> 'm::comm_monoid_add"
  assumes E: "exactWhenRepresentable ok val"
    and H: "\<And>ys. subseq ys (map val (amounts h data)) \<Longrightarrow> \<exists>c. ok c \<and> val c = sum_list ys"
    and D: "\<And>x. x \<in> set data \<Longrightarrow> retailRow h x \<or> clubRow h x \<Longrightarrow> hasDate x"
    and A: "\<And>a. a \<in> set (amounts h data) \<Longrightarrow> ok a"
    and run: "forEach (processRow h) (0, 0, []) data = Inr locals"
  shows "exactLocals ok val h data locals"
proof (rule forEach_prefix_invariant [where P = "exactLocals ok val h", OF run])
  show "exactLocals ok val h [] (0, 0, [])"
    using E by (simp add: exactLocals_def exactWhenRepresentable_def sumWhere_def)
next
  fix pre x rest and s s1 :: "'n \<times> 'n \<times> 'n dailyMap"
  assume split: "data = pre @ x # rest" and inv: "exactLocals ok val h pre s"
    and st: "processRow h s x = Inr s1"
  obtain rt ct dm rt' ct' dm' where s: "s = (rt, ct, dm)" "s1 = (rt', ct', dm')"
    using prod_cases3 by metis
  have "exactLocals ok val h (pre @ [x]) (rt', ct', dm')"
  proof (rule processRow_exact [OF E _ _ _ inv [unfolded s] st [unfolded s]])
    show "\<And>ys. subseq ys (map val (amounts h (pre @ x # rest))) \<Longrightarrow> \<exists>c. ok c \<and> val c = sum_list ys"
      using H split by simp
    show "retailRow h x \<or> clubRow h x \<Longrightarrow> hasDate x"
      using D [of x] split by simp
    show "retailRow h x \<or> clubRow h x \<Longrightarrow> ok (amountOf h x)"
      using A [of "amountOf h x"] split by (auto simp: amounts_def)
  qed
  then show "exactLocals ok val h (pre @ [x]) s1"
    by (simp add: s)
qed

lemma combine_exact:
  fixes val :: "'n::{plus,zero} \<Rightarrow> 'm::comm_monoid_add"
  assumes E: "exactWhenRepresentable ok val"
    and H: "\<And>ys. subseq ys (map g (filter K data)) \<Longrightarrow> \<exists>c. ok c \<and> val c = sum_list ys"
    and "\<And>x. P x \<Longrightarrow> K x" and "\<And>x. Q x \<Longrightarrow> K x"
    and disj: "\<And>x. x \<in> set data \<Longrightarrow> \<not> (P x \<and> Q x)"
    and a: "ok a" "val a = sumWhere g P data" and b: "ok b" "val b = sumWhere g Q data"
  shows "ok (a + b) \<and> val (a + b) = sumWhere g (\<lambda>x. P x \<or> Q x) data"
proof -
  have "subseq (map g (filter (\<lambda>x. P x \<or> Q x) data)) (map g (filter K (data @ [])))"
    by (rule subseq_filtered_prefix) (use assms(3,4) in blast)
  then have s: "subseq (map g (filter (\<lambda>x. P x \<or> Q x) data)) (map g (filter K data))"
    by simp
  have "val a + val b = sumWhere g (\<lambda>x. P x \<or> Q x) data"
    unfolding a b using disj by (rule sumWhere_disjoint)
  then have v: "val a + val b = sum_list (map g (filter (\<lambda>x. P x \<or> Q x) data))"
    by (simp add: sumWhere_def)
  show ?thesis
    unfolding sumWhere_def by (rule add_exact [OF E H a(1) b(1) s v])
qed

lemma foldl_exact:
  fixes val :: "'n::{plus,zero} \<Rightarrow> 'm::comm_monoid_add" and days :: "'n DailyProfit list"
  assumes E: "exactWhenRepresentable ok val"
    and H: "\<And>ys. subseq ys (map g (filter K data)) \<Longrightarrow> \<exists>c. ok c \<and> val c = sum_list ys"
    and QK: "\<And>x. Q x \<Longrightarrow> K x"
    and "distinct (map date days)"
    and "\<And>day. day \<in> set days \<Longrightarrow>
           ok (fld day) \<and> val (fld day) = sumWhere g (\<lambda>x. Q x \<and> dateCreated x = Some (date day)) data"
    and "ok a" and "val a = sumWhere g (\<lambda>x. Q x \<and> (\<exists>d \<in> S. dateCreated x = Some d)) data"
    and "S \<inter> date ` set days = {}"
  shows "ok (foldl (+) a (map fld days)) \<and>
         val (foldl (+) a (map fld days))
           = sumWhere g (\<lambda>x. Q x \<and> (\<exists>d \<in> S \<union> date ` set days. dateCreated x = Some d)) data"
  using assms(4-)
proof (induction days arbitrary: a S)
  case Nil
  then show ?case by simp
next
  case (Cons day days)
  have day: "ok (fld day)" "val (fld day) = sumWhere g (\<lambda>x. Q x \<and> dateCreated x = Some (date day)) data"
    using Cons.prems(2) [of day] by simp_all
  have new: "date day \<notin> S" "date day \<notin> date ` set days"
    using Cons.prems(1,5) by auto
  have "ok (a + fld day) \<and>
        val (a + fld day) = sumWhere g (\<lambda>x. (Q x \<and> (\<exists>d \<in> S. dateCreated x = Some d)) \<or>
                                            (Q x \<and> dateCreated x = Some (date day))) data"
    by (rule combine_exact [where K = K and g = g and data = data, OF E H _ _ _ Cons.prems(3,4) day]) (use QK new in auto)
  moreover have "sumWhere g (\<lambda>x. (Q x \<and> (\<exists>d \<in> S. dateCreated x = Some d)) \<or>
                                   (Q x \<and> dateCreated x = Some (date day))) data
      = sumWhere g (\<lambda>x. Q x \<and> (\<exists>d \<in> insert (date day) S. dateCreated x = Some d)) data"
    by (rule sumWhere_cong) auto
  ultimately have acc: "ok (a + fld day)"
    "val (a + fld day) = sumWhere g (\<lambda>x. Q x \<and> (\<exists>d \<in> insert (date day) S. dateCreated x = Some d)) data"
    by simp_all
  have "ok (foldl (+) (a + fld day) (map fld days)) \<and>
        val (foldl (+) (a + fld day) (map fld days))
          = sumWhere g (\<lambda>x. Q x \<and> (\<exists>d \<in> insert (date day) S \<union> date ` set days.
                                       dateCreated x = Some d)) data"
  proof (rule Cons.IH [OF _ _ acc])
    show "distinct (map date days)" using Cons.prems(1) by simp
    show "\<And>d. d \<in> set days \<Longrightarrow>
           ok (fld d) \<and> val (fld d) = sumWhere g (\<lambda>x. Q x \<and> dateCreated x = Some (date d)) data"
      using Cons.prems(2) by simp
    show "insert (date day) S \<inter> date ` set days = {}"
      using Cons.prems(5) new by auto
  qed
  then show ?case by simp
qed

lemma foldr_exact:
  fixes val :: "'n::{plus,zero} \<Rightarrow> 'm::comm_monoid_add" and days :: "'n DailyProfit list"
  assumes E: "exactWhenRepresentable ok val"
    and H: "\<And>ys. subseq ys (map g (filter K data)) \<Longrightarrow> \<exists>c. ok c \<and> val c = sum_list ys"
    and QK: "\<And>x. Q x \<Longrightarrow> K x"
    and "distinct (map date days)"
    and "\<And>day. day \<in> set days \<Longrightarrow>
           ok (fld day) \<and> val (fld day) = sumWhere g (\<lambda>x. Q x \<and> dateCreated x = Some (date day)) data"
  shows "ok (foldr (+) (map fld days) 0) \<and>
         val (foldr (+) (map fld days) 0)
           = sumWhere g (\<lambda>x. Q x \<and> (\<exists>d \<in> date ` set days. dateCreated x = Some d)) data"
  using assms(4-)
proof (induction days)
  case Nil
  have "sumWhere g (\<lambda>x. Q x \<and> (\<exists>d \<in> date ` set ([] :: 'n DailyProfit list). dateCreated x = Some d)) data = 0"
    by (rule sumWhere_none) simp
  then show ?case
    using E by (simp add: exactWhenRepresentable_def)
next
  case (Cons day days)
  have day: "ok (fld day)" "val (fld day) = sumWhere g (\<lambda>x. Q x \<and> dateCreated x = Some (date day)) data"
    using Cons.prems(2) [of day] by simp_all
  have new: "date day \<notin> date ` set days"
    using Cons.prems(1) by auto
  have rest: "ok (foldr (+) (map fld days) 0)"
    "val (foldr (+) (map fld days) 0)
       = sumWhere g (\<lambda>x. Q x \<and> (\<exists>d \<in> date ` set days. dateCreated x = Some d)) data"
    using Cons.IH Cons.prems by simp_all
  have "ok (fld day + foldr (+) (map fld days) 0) \<and>
        val (fld day + foldr (+) (map fld days) 0)
          = sumWhere g (\<lambda>x. (Q x \<and> dateCreated x = Some (date day)) \<or>
                             (Q x \<and> (\<exists>d \<in> date ` set days. dateCreated x = Some d))) data"
    by (rule combine_exact [where K = K and g = g and data = data, OF E H _ _ _ day rest]) (use QK new in auto)
  moreover have "sumWhere g (\<lambda>x. (Q x \<and> dateCreated x = Some (date day)) \<or>
                             (Q x \<and> (\<exists>d \<in> date ` set days. dateCreated x = Some d))) data
      = sumWhere g (\<lambda>x. Q x \<and> (\<exists>d \<in> date ` set (day # days). dateCreated x = Some d)) data"
    by (rule sumWhere_cong) auto
  ultimately show ?case by simp
qed

lemma contributes_iff:
  "retailRow h x \<or> clubRow h x \<longleftrightarrow> qualifies h x \<and> isRecognized x"
  by (auto simp: retailRow_def clubRow_def isRecognized_def split: option.splits)

lemma totals_exact:
  fixes h :: "'n::{plus,zero} host" and val :: "'n \<Rightarrow> 'm::comm_monoid_add"
  assumes E: "exactWhenRepresentable ok val"
    and run: "calculateTotals h language data f = Inr r"
    and D: "\<forall>row \<in> set data. qualifies h row \<and> isRecognized row \<longrightarrow> hasDate row"
    and A: "\<forall>a \<in> set (amounts h data). ok a"
    and H: "\<forall>ys \<in> set (subseqs (map val (amounts h data))). \<exists>c. ok c \<and> val c = sum_list ys"
  shows "retailTotal (salesData r) = foldl (+) 0 (map retail (dailyData (salesData r)))"
    and "clubTotal (salesData r) = foldl (+) 0 (map club (dailyData (salesData r)))"
    and "retailTotal (salesData r) + clubTotal (salesData r)
           = foldl (+) 0 (map total' (dailyData (salesData r)))"
    and "retailTotal (salesData r) + clubTotal (salesData r)
           = foldr (+) (map total' (dailyData (salesData r))) 0"
proof -
  let ?g = "\<lambda>x. val (amountOf h x)"
  let ?K = "\<lambda>x. retailRow h x \<or> clubRow h x"
  define cmp where
    "cmp = (\<lambda>(a :: 'n DailyProfit) (b :: 'n DailyProfit).
              minus_time (dateTime h (date a)) (dateTime h (date b)))"
  define days where "days = dailyData (salesData r)"
  obtain rt ct dm where fin: "forEach (processRow h) (0, 0, []) data = Inr (rt, ct, dm)"
    and tot: "retailTotal (salesData r) = rt" "clubTotal (salesData r) = ct"
    and dd: "days = sort_with cmp (map toDailyProfit dm)"
    using calculateTotals_run [OF run] unfolding cmp_def days_def by blast
  have H0: "\<exists>c. ok c \<and> val c = sum_list ys" if "subseq ys (map val (amounts h data))" for ys
    using H that by (simp add: in_set_subseqs)
  have H1: "\<exists>c. ok c \<and> val c = sum_list ys" if "subseq ys (map ?g (filter ?K data))" for ys
    using H0 [of ys] that by (simp add: amounts_def o_def)
  have inv: "exactLocals ok val h data (rt, ct, dm)"
  proof (rule forEach_exact [OF E H0 _ _ fin])
    show "\<And>x. x \<in> set data \<Longrightarrow> retailRow h x \<or> clubRow h x \<Longrightarrow> hasDate x"
      using D contributes_iff [of h] by blast
    show "\<And>a. a \<in> set (amounts h data) \<Longrightarrow> ok a"
      using A by blast
  qed
  have Irt: "ok rt" "val rt = sumWhere ?g (retailRow h) data"
    and Ict: "ok ct" "val ct = sumWhere ?g (clubRow h) data"
    and Idist: "distinct (map fst dm)"
    using inv by (simp_all add: exactLocals_def)
  have Ibucket: "ok a \<and> val a = sumWhere ?g (\<lambda>x. retailRow h x \<and> dateCreated x = Some d) data \<and>
                 ok b \<and> val b = sumWhere ?g (\<lambda>x. clubRow h x \<and> dateCreated x = Some d) data"
    if "(d, a, b) \<in> set dm" for d a b
    using inv that by (auto simp: exactLocals_def)
  have Icover: "\<exists>d. dateCreated y = Some d \<and> d \<in> fst ` set dm"
    if "y \<in> set data" "?K y" for y
    using inv that unfolding exactLocals_def by blast
  have disjoint: "\<not> (retailRow h x \<and> clubRow h x)" for x
    by (auto simp: retailRow_def clubRow_def split: option.splits)
  have inj: "a = c" if "ok a" "ok c" "val a = val c" for a c
    using E that unfolding exactWhenRepresentable_def by blast
  have zero: "ok 0" "val 0 = 0"
    using E by (simp_all add: exactWhenRepresentable_def)
  have both: "ok (rt + ct) \<and> val (rt + ct) = sumWhere ?g ?K data"
    by (rule combine_exact [where K = ?K and g = ?g and data = data, OF E H1 _ _ _ Irt Ict])
      (use disjoint in auto)
  have set_days: "set days = toDailyProfit ` set dm"
    unfolding dd by (simp add: set_sort_with)
  have "mset (map date days) = mset (map fst dm)"
  proof -
    have "mset (map date days) = image_mset date (mset (map toDailyProfit dm))"
      unfolding dd by (simp add: mset_sort_with)
    also have "\<dots> = mset (map (\<lambda>e. date (toDailyProfit e)) dm)"
      by (simp add: image_mset.compositionality o_def)
    also have "(\<lambda>e :: string \<times> 'n \<times> 'n. date (toDailyProfit e)) = fst"
      by (auto simp: toDailyProfit_def)
    finally show ?thesis .
  qed
  then have dist: "distinct (map date days)"
    using Idist by (metis mset_eq_imp_distinct_iff)
  have dates: "date ` set days = fst ` set dm"
    unfolding set_days by (force simp: toDailyProfit_def)
  have day_fields:
    "ok (retail day) \<and> val (retail day)
        = sumWhere ?g (\<lambda>x. retailRow h x \<and> dateCreated x = Some (date day)) data"
    "ok (club day) \<and> val (club day)
        = sumWhere ?g (\<lambda>x. clubRow h x \<and> dateCreated x = Some (date day)) data"
    "ok (total' day) \<and> val (total' day)
        = sumWhere ?g (\<lambda>x. ?K x \<and> dateCreated x = Some (date day)) data"
    if member: "day \<in> set days" for day
  proof -
    obtain d a b where e: "(d, a, b) \<in> set dm" and day: "day = toDailyProfit (d, a, b)"
      using member set_days by auto
    have f: "date day = d" "retail day = a" "club day = b" "total' day = a + b"
      by (simp_all add: day toDailyProfit_def)
    note B = Ibucket [OF e]
    show "ok (retail day) \<and> val (retail day)
        = sumWhere ?g (\<lambda>x. retailRow h x \<and> dateCreated x = Some (date day)) data"
      and "ok (club day) \<and> val (club day)
        = sumWhere ?g (\<lambda>x. clubRow h x \<and> dateCreated x = Some (date day)) data"
      using B by (simp_all add: f)
    have "ok (a + b) \<and> val (a + b)
        = sumWhere ?g (\<lambda>x. (retailRow h x \<and> dateCreated x = Some d) \<or>
                            (clubRow h x \<and> dateCreated x = Some d)) data"
      by (rule combine_exact [where K = ?K and g = ?g and data = data, OF E H1])
        (use B disjoint in auto)
    moreover have "sumWhere ?g (\<lambda>x. (retailRow h x \<and> dateCreated x = Some d) \<or>
                            (clubRow h x \<and> dateCreated x = Some d)) data
        = sumWhere ?g (\<lambda>x. ?K x \<and> dateCreated x = Some d) data"
      by (rule sumWhere_cong) auto
    ultimately show "ok (total' day) \<and> val (total' day)
        = sumWhere ?g (\<lambda>x. ?K x \<and> dateCreated x = Some (date day)) data"
      by (simp add: f)
  qed
  have all_days: "sumWhere ?g (\<lambda>x. Q x \<and> (\<exists>d \<in> date ` set days. dateCreated x = Some d)) data
      = sumWhere ?g Q data" if "\<And>x. Q x \<Longrightarrow> ?K x" for Q
  proof (rule sumWhere_cong)
    fix x assume "x \<in> set data"
    then show "(Q x \<and> (\<exists>d \<in> date ` set days. dateCreated x = Some d)) = Q x"
      using Icover [of x] that [of x] dates by auto
  qed
  have left: "ok (foldl (+) 0 (map fld days)) \<and> val (foldl (+) 0 (map fld days)) = sumWhere ?g Q data"
    if "\<And>x. Q x \<Longrightarrow> ?K x"
      and "\<And>day. day \<in> set days \<Longrightarrow> ok (fld day) \<and>
             val (fld day) = sumWhere ?g (\<lambda>x. Q x \<and> dateCreated x = Some (date day)) data"
    for Q and fld :: "'n DailyProfit \<Rightarrow> 'n"
  proof -
    have "sumWhere ?g (\<lambda>x. Q x \<and> (\<exists>d \<in> {}. dateCreated x = Some d)) data = 0"
      by (rule sumWhere_none) simp
    then have start: "val 0 = sumWhere ?g (\<lambda>x. Q x \<and> (\<exists>d \<in> {}. dateCreated x = Some d)) data"
      using zero by simp
    have "ok (foldl (+) 0 (map fld days)) \<and>
          val (foldl (+) 0 (map fld days))
            = sumWhere ?g (\<lambda>x. Q x \<and> (\<exists>d \<in> {} \<union> date ` set days. dateCreated x = Some d)) data"
      by (rule foldl_exact [where K = ?K and g = ?g and data = data and Q = Q and S = "{}",
            OF E H1 that(1) dist that(2) zero(1) start]) simp_all
    then show ?thesis
      using all_days [OF that(1)] by simp
  qed
  have right: "ok (foldr (+) (map fld days) 0) \<and> val (foldr (+) (map fld days) 0) = sumWhere ?g Q data"
    if "\<And>x. Q x \<Longrightarrow> ?K x"
      and "\<And>day. day \<in> set days \<Longrightarrow> ok (fld day) \<and>
             val (fld day) = sumWhere ?g (\<lambda>x. Q x \<and> dateCreated x = Some (date day)) data"
    for Q and fld :: "'n DailyProfit \<Rightarrow> 'n"
  proof -
    have "ok (foldr (+) (map fld days) 0) \<and>
          val (foldr (+) (map fld days) 0)
            = sumWhere ?g (\<lambda>x. Q x \<and> (\<exists>d \<in> date ` set days. dateCreated x = Some d)) data"
      by (rule foldr_exact [where K = ?K and g = ?g and data = data and Q = Q,
            OF E H1 that(1) dist that(2)])
    then show ?thesis
      using all_days [OF that(1)] by simp
  qed
  have "rt = foldl (+) 0 (map retail days)"
    using left [of "retailRow h" retail] day_fields(1) Irt inj by simp
  then show "retailTotal (salesData r) = foldl (+) 0 (map retail (dailyData (salesData r)))"
    by (simp add: tot days_def)
  have "ct = foldl (+) 0 (map club days)"
    using left [of "clubRow h" club] day_fields(2) Ict inj by simp
  then show "clubTotal (salesData r) = foldl (+) 0 (map club (dailyData (salesData r)))"
    by (simp add: tot days_def)
  have "rt + ct = foldl (+) 0 (map total' days)"
    using left [of ?K total'] day_fields(3) both inj by simp
  then show "retailTotal (salesData r) + clubTotal (salesData r)
           = foldl (+) 0 (map total' (dailyData (salesData r)))"
    by (simp add: tot days_def)
  have "rt + ct = foldr (+) (map total' days) 0"
    using right [of ?K total'] day_fields(3) both inj by simp
  then show "retailTotal (salesData r) + clubTotal (salesData r)
           = foldr (+) (map total' (dailyData (salesData r))) 0"
    by (simp add: tot days_def)
qed

lemma totals_in_exact_arithmetic:
  fixes h :: "'n::comm_monoid_add host"
  assumes "calculateTotals h language data f = Inr r"
    and "\<forall>row \<in> set data. qualifies h row \<and> isRecognized row \<longrightarrow> hasDate row"
  shows "retailTotal (salesData r) = sum_list (map retail (dailyData (salesData r)))"
    and "clubTotal (salesData r) = sum_list (map club (dailyData (salesData r)))"
    and "retailTotal (salesData r) + clubTotal (salesData r)
           = sum_list (map total' (dailyData (salesData r)))"
  using totals_exact(1-3) [where ok = "\<lambda>_. True" and val = "\<lambda>a :: 'n. a", OF exact_monoid assms]
  by (simp_all add: foldl_plus_sum_list)

text \<open>
  Claim C1, amended. Let \<open>ok\<close> mark numbers of the engine that \<open>val\<close> reads, one to
  one, as elements of an exact arithmetic, 0 among them, such that the sum of two of
  them is exact whenever the exact sum is the value of such a number: the finite doubles
  with their rationals are such, and so are all numbers of an exact arithmetic. When
  every row that contributes to a total carries a non-empty date, every contributing
  amount is such a number and so is the exact sum of every selection of the contributing
  amounts, then the retail total plus the club total is the sum of the \<open>total'\<close> fields
  of the daily series, added from the left or from the right, the retail total is the
  sum of the retail fields and the club total the sum of the club fields. In every
  engine, a row of a recognized kind with a readable amount and no date is added to its
  running total and leaves the buckets as they are.
\<close>

theorem totals_equal_sum_of_daily_totals:
  fixes h :: "'n::{plus,zero} host" and val :: "'n \<Rightarrow> 'm::comm_monoid_add"
  shows "(exactWhenRepresentable ok val \<and>
          calculateTotals h language data f = Inr r \<and>
          (\<forall>row \<in> set data. qualifies h row \<and> isRecognized row \<longrightarrow> hasDate row) \<and>
          (\<forall>a \<in> set (amounts h data). ok a) \<and>
          (\<forall>ys \<in> set (subseqs (map val (amounts h data))). \<exists>c. ok c \<and> val c = sum_list ys) \<longrightarrow>
            retailTotal (salesData r) + clubTotal (salesData r)
              = foldl (+) 0 (map total' (dailyData (salesData r))) \<and>
            retailTotal (salesData r) + clubTotal (salesData r)
              = foldr (+) (map total' (dailyData (salesData r))) 0 \<and>
            retailTotal (salesData r) = foldl (+) 0 (map retail (dailyData (salesData r))) \<and>
            clubTotal (salesData r) = foldl (+) 0 (map club (dailyData (salesData r)))) \<and>
         (qualifies h row \<and> receiptType row = Some t \<and> profitString row = Some ps \<and>
          \<not> hasDate row \<longrightarrow>
            processRow h (rt, ct, dm) row =
              Inr (if isRetail t then rt + profit h ps else rt,
                   if isRetail t then ct else if isClub t then ct + profit h ps else ct,
                   dm))"
proof (intro conjI impI)
  assume a: "exactWhenRepresentable ok val \<and>
          calculateTotals h language data f = Inr r \<and>
          (\<forall>row \<in> set data. qualifies h row \<and> isRecognized row \<longrightarrow> hasDate row) \<and>
          (\<forall>a \<in> set (amounts h data). ok a) \<and>
          (\<forall>ys \<in> set (subseqs (map val (amounts h data))). \<exists>c. ok c \<and> val c = sum_list ys)"
  note t = totals_exact [where ok = ok and val = val and h = h and data = data and r = r
      and language = language and f = f]
  show "retailTotal (salesData r) + clubTotal (salesData r)
              = foldl (+) 0 (map total' (dailyData (salesData r)))"
    using a by (intro t(3)) simp_all
  show "retailTotal (salesData r) + clubTotal (salesData r)
              = foldr (+) (map total' (dailyData (salesData r))) 0"
    using a by (intro t(4)) simp_all
  show "retailTotal (salesData r) = foldl (+) 0 (map retail (dailyData (salesData r)))"
    using a by (intro t(1)) simp_all
  show "clubTotal (salesData r) = foldl (+) 0 (map club (dailyData (salesData r)))"
    using a by (intro t(2)) simp_all
next
  assume b: "qualifies h row \<and> receiptType row = Some t \<and> profitString row = Some ps \<and>
          \<not> hasDate row"
  then have "(case dateCreated row of
               None \<Rightarrow> dm
             | Some d \<Rightarrow> if d = [] then dm
                         else AList.update d (addToDay (profit h ps) t (bucketOf dm d)) dm) = dm"
    by (auto simp: hasDate_def split: option.splits)
  then show "processRow h (rt, ct, dm) row =
              Inr (if isRetail t then rt + profit h ps else rt,
                   if isRetail t then ct else if isClub t then ct + profit h ps else ct,
                   dm)"
    using processRow_qualifying [of h row t ps rt ct dm] b by simp
qed

section \<open>Totals on two tables\<close>

lemma decimal_engine_fields:
  "isNaN decimal_engine x \<longleftrightarrow> x = NotDecimal" "parseFloat decimal_engine = decimal_parseFloat"
  "Date decimal_engine = usDate"
  by (simp_all add: decimal_engine_def)

lemma decimal_profits:
  "profit decimal_engine ''$10.00'' = Decimal 10" "profit decimal_engine ''$5.50'' = Decimal (11 / 2)"
  "profit decimal_engine ''$3.00'' = Decimal 3"
  by code_simp+

lemma decimal_months:
  "getMonthFromDate decimal_engine En ''01/05/2024'' = ''January''"
  "getMonthFromDate decimal_engine En ''02/01/2024'' = ''February''"
  by code_simp+

lemma decimal_aggregation:
  "calculateTotals decimal_engine En exampleRows ''sales.csv'' = Inr decimalResult"
proof -
  have "forEach (processRow decimal_engine) (0, 0, []) exampleRows =
     Inr (Decimal 13, Decimal (11 / 2), [(''01/05/2024'', (Decimal 10, Decimal (11 / 2))),
                                         (''02/01/2024'', (Decimal 3, Decimal 0))])"
    by (simp add: exampleRows_def processRow_def row_eval decimal_engine_fields decimal_profits
        zero_decimal_def Let_def)
  then show ?thesis
    by (simp add: calculateTotals_def decimalResult_def toDailyProfit_def
        month_eval decimal_engine_fields dateTime_def example_dates decimal_months
        zero_decimal_def)
qed

lemma example_more_doubles:
  "toDouble 0 = Num 0" "toDouble (17 / 2) = Num (17 / 2)" "toDouble (37 / 2) = Num (37 / 2)"
  "toDouble 16 = Num 16"
  by code_simp+

lemma example_amounts: "amounts engine exampleRows = [Num 10, Num (11 / 2), Num 3]"
  by (simp add: amounts_def amountOf_def retailRow_def clubRow_def qualifies_def exampleRows_def
      row_eval engine_fields example_profits)

lemma representable: "toDouble q = Num q \<Longrightarrow> \<exists>c. isFiniteDouble c \<and> valueOf c = q"
  by (rule exI [of _ "Num q"]) (simp add: isFiniteDouble_def valueOf_def)

lemma example_sums_representable:
  "\<forall>ys \<in> set (subseqs (map valueOf (amounts engine exampleRows))).
     \<exists>c. isFiniteDouble c \<and> valueOf c = sum_list ys"
proof -
  define R where "R q \<longleftrightarrow> (\<exists>c. isFiniteDouble c \<and> valueOf c = q)" for q
  have "R 0" "R 3" "R (11 / 2)" "R (17 / 2)" "R 10" "R 13" "R (31 / 2)" "R (37 / 2)"
    unfolding R_def
    by (rule representable, simp add: example_doubles example_more_doubles)+
  moreover have "map valueOf (amounts engine exampleRows) = [10, 11 / 2, 3]"
    by (simp add: example_amounts valueOf_def)
  ultimately have "\<forall>ys \<in> set (subseqs (map valueOf (amounts engine exampleRows))). R (sum_list ys)"
    by (simp add: Let_def)
  then show ?thesis
    unfolding R_def .
qed

lemma exampleRows_dated:
  "\<forall>row \<in> set exampleRows. hasDate row"
  by (simp add: exampleRows_def hasDate_def dateCreated_def or_else_def)

lemma undatedRetailRow_facts:
  "qualifies engine undatedRetailRow" "receiptType undatedRetailRow = Some ''Retail Sale''"
  "profitString undatedRetailRow = Some ''$3.00''" "\<not> hasDate undatedRetailRow"
  using example_profits(3)
  by (simp_all add: qualifies_def undatedRetailRow_def receiptType_def profitString_def
      customerName_def dateCreated_def or_else_def isExcluded_def engine_fields
      hasDate_def Fecha_de_creacion_def)

text \<open>
  The example of the specification in doubles: the amounts 10, 5.5 and 3 and the sums
  of every selection of them are doubles. And a retail row without a date.
\<close>

theorem totals_equal_sum_of_daily_totals_witness:
  "calculateTotals engine En exampleRows ''sales.csv'' = Inr exampleResult \<and>
   hasDate (exampleRows ! 0) \<and> hasDate (exampleRows ! 1) \<and> hasDate (exampleRows ! 2) \<and>
   amounts engine exampleRows = [Num 10, Num (11 / 2), Num 3] \<and>
   isFiniteDouble (Num 10) \<and> isFiniteDouble (Num (11 / 2)) \<and> isFiniteDouble (Num 3) \<and>
   isFiniteDouble (Num (31 / 2)) \<and> isFiniteDouble (Num 13) \<and> isFiniteDouble (Num (17 / 2)) \<and>
   isFiniteDouble (Num (37 / 2)) \<and> isFiniteDouble (Num 0) \<and>
   retailTotal (salesData exampleResult) + clubTotal (salesData exampleResult) = Num (37 / 2) \<and>
   foldl (+) 0 (map total' (dailyData (salesData exampleResult))) = Num (37 / 2) \<and>
   foldr (+) (map total' (dailyData (salesData exampleResult))) 0 = Num (37 / 2) \<and>
   foldl (+) 0 (map retail (dailyData (salesData exampleResult))) = Num 13 \<and>
   foldl (+) 0 (map club (dailyData (salesData exampleResult))) = Num (11 / 2) \<and>
   qualifies engine undatedRetailRow \<and> \<not> hasDate undatedRetailRow \<and>
   processRow engine (Num 13, Num (11 / 2), []) undatedRetailRow =
     Inr (Num 16, Num (11 / 2), [])"
proof -
  have dated: "\<forall>row \<in> set exampleRows.
      qualifies engine row \<and> isRecognized row \<longrightarrow> hasDate row"
    using exampleRows_dated by blast
  have ok: "\<forall>a \<in> set (amounts engine exampleRows). isFiniteDouble a"
    by (simp add: example_amounts isFiniteDouble_def example_doubles)
  note t = totals_equal_sum_of_daily_totals
    [where ok = isFiniteDouble and val = valueOf and h = engine and language = En
       and data = exampleRows and f = "''sales.csv''" and r = exampleResult
       and row = undatedRetailRow and t = "''Retail Sale''" and ps = "''$3.00''"
       and rt = "Num 13" and ct = "Num (11 / 2)" and dm = "[]"]
  have eq: "retailTotal (salesData exampleResult) + clubTotal (salesData exampleResult)
        = foldl (+) 0 (map total' (dailyData (salesData exampleResult)))"
    "retailTotal (salesData exampleResult) + clubTotal (salesData exampleResult)
        = foldr (+) (map total' (dailyData (salesData exampleResult))) 0"
    "retailTotal (salesData exampleResult) = foldl (+) 0 (map retail (dailyData (salesData exampleResult)))"
    "clubTotal (salesData exampleResult) = foldl (+) 0 (map club (dailyData (salesData exampleResult)))"
    using t doubles_exactWhenRepresentable example_aggregation dated ok example_sums_representable
    by blast+
  have v: "retailTotal (salesData exampleResult) + clubTotal (salesData exampleResult) = Num (37 / 2)"
    "retailTotal (salesData exampleResult) = Num 13" "clubTotal (salesData exampleResult) = Num (11 / 2)"
    by (simp_all add: exampleResult_def example_more_doubles)
  have "processRow engine (Num 13, Num (11 / 2), []) undatedRetailRow =
     Inr (Num 16, Num (11 / 2), [])"
    using t undatedRetailRow_facts by (simp add: isRetail_def example_profits example_more_doubles)
  moreover have "hasDate (exampleRows ! 0)" "hasDate (exampleRows ! 1)" "hasDate (exampleRows ! 2)"
    using exampleRows_dated by (simp_all add: exampleRows_def)
  moreover have "isFiniteDouble (Num 10)" "isFiniteDouble (Num (11 / 2))" "isFiniteDouble (Num 3)"
    "isFiniteDouble (Num (31 / 2))" "isFiniteDouble (Num 13)" "isFiniteDouble (Num (17 / 2))"
    "isFiniteDouble (Num (37 / 2))" "isFiniteDouble (Num 0)"
    by (simp_all add: isFiniteDouble_def example_doubles example_more_doubles)
  ultimately show ?thesis
    using example_aggregation example_amounts eq [symmetric] v undatedRetailRow_facts
    by (simp del: plus_jsnum.simps foldl_Cons foldr.simps)
qed

lemma decimal_totals_example:
  "retailTotal (salesData decimalResult) + clubTotal (salesData decimalResult)
     = sum_list (map total' (dailyData (salesData decimalResult)))"
proof -
  have "\<forall>row \<in> set exampleRows. qualifies decimal_engine row \<and> isRecognized row \<longrightarrow> hasDate row"
    using exampleRows_dated by blast
  then show ?thesis
    using totals_in_exact_arithmetic(3) [OF decimal_aggregation] by blast
qed

lemma rounding_profits:
  "profit engine ''0.1'' = Num (3602879701896397 / 36028797018963968)"
  "profit engine ''0.7'' = Num (3152519739159347 / 4503599627370496)"
  "profit engine ''0.3'' = Num (5404319552844595 / 18014398509481984)"
  by code_simp+

lemma rounding_sums:
  "0 + Num (3602879701896397 / 36028797018963968) = Num (3602879701896397 / 36028797018963968)"
  "0 + Num (3152519739159347 / 4503599627370496) = Num (3152519739159347 / 4503599627370496)"
  "Num (3602879701896397 / 36028797018963968) + Num (3152519739159347 / 4503599627370496)
     = Num (7205759403792793 / 9007199254740992)"
  "Num (7205759403792793 / 9007199254740992) + Num (5404319552844595 / 18014398509481984)
     = Num (4953959590107545 / 4503599627370496)"
  "Num (3602879701896397 / 36028797018963968) + Num (5404319552844595 / 18014398509481984)
     = Num (3602879701896397 / 9007199254740992)"
  "Num (3602879701896397 / 9007199254740992) + 0 = Num (3602879701896397 / 9007199254740992)"
  "Num (3152519739159347 / 4503599627370496) + 0 = Num (3152519739159347 / 4503599627370496)"
  "Num (4953959590107545 / 4503599627370496) + 0 = Num (4953959590107545 / 4503599627370496)"
  "0 + Num (3602879701896397 / 9007199254740992) = Num (3602879701896397 / 9007199254740992)"
  "Num (3602879701896397 / 9007199254740992) + Num (3152519739159347 / 4503599627370496)
     = Num (2476979795053773 / 2251799813685248)"
  by code_simp+

lemma rounding_aggregation:
  "calculateTotals engine En roundingRows ''sales.csv'' = Inr roundingResult"
proof -
  have "forEach (processRow engine) (0, 0, []) roundingRows =
     Inr (Num (4953959590107545 / 4503599627370496), 0,
          [(''01/05/2024'', (Num (3602879701896397 / 9007199254740992), 0)),
           (''02/01/2024'', (Num (3152519739159347 / 4503599627370496), 0))])"
    by (simp add: roundingRows_def processRow_def row_eval engine_fields rounding_profits
        rounding_sums Let_def del: plus_jsnum.simps)
  then show ?thesis
    by (simp add: calculateTotals_def roundingResult_def toDailyProfit_def
        month_eval engine_fields dateTime_def example_dates example_months rounding_sums
        del: plus_jsnum.simps)
qed

text \<open>
  Claim C1 as stated fails in the arithmetic of the program, IEEE doubles. Three retail
  rows of 0.1, 0.7 and 0.3, the second on another day, all dated: the running total is
  (0.1 + 0.7) + 0.3 = 1.0999999999999999, the buckets are 0.1 + 0.3 = 0.4 and 0.7, and
  their totals add up to 1.1 in either order.
\<close>

theorem totals_double_rounding_counterexample:
  "calculateTotals engine En roundingRows ''sales.csv'' = Inr roundingResult \<and>
   hasDate (roundingRows ! 0) \<and> hasDate (roundingRows ! 1) \<and> hasDate (roundingRows ! 2) \<and>
   retailTotal (salesData roundingResult) + clubTotal (salesData roundingResult)
     = Num (4953959590107545 / 4503599627370496) \<and>
   foldl (+) 0 (map total' (dailyData (salesData roundingResult)))
     = Num (2476979795053773 / 2251799813685248) \<and>
   foldr (+) (map total' (dailyData (salesData roundingResult))) 0
     = Num (2476979795053773 / 2251799813685248)"
  using rounding_aggregation
  by (simp add: roundingResult_def roundingRows_def hasDate_def dateCreated_def or_else_def
      rounding_sums del: plus_jsnum.simps)

end
